theory Spec2Isabelle
  imports Main
begin

section \<open>Rendering of integer-valued numbers\<close>

text \<open>
  The writer interpolates numbers into template literals. Indices the code computes with
  (row index, column index, range bounds) are integers and are modelled as \<open>int\<close> or
  \<open>nat\<close>; \<open>showInt\<close> is the decimal text that a template literal gives for an integer.
\<close>

function showNat :: "nat \<Rightarrow> string" where
  "showNat n = (if n < 10 then [char_of (48 + n)] else showNat (n div 10) @ [char_of (48 + n mod 10)])"
  by pat_completeness auto
termination
  by (relation "measure id") auto

declare showNat.simps [simp del]

definition showInt :: "int \<Rightarrow> string" where
  "showInt i = (if i < 0 then CHR ''-'' # showNat (nat (- i)) else showNat (nat i))"

section \<open>Column letters\<close>

text \<open>
  \<^verbatim>\<open>
  function columnIndexToLetter(colIndex: number): string {
    let result = '';
    colIndex++; // Convert to 1-based
    while (colIndex > 0) {
      colIndex--;
      result = String.fromCharCode(65 + (colIndex % 26)) + result;
      colIndex = Math.floor(colIndex / 26);
    }
    return result;
  }
  \<close>
  The column index is a 0-based array index, a \<open>nat\<close>. \<open>letterLoop\<close> is the while loop,
  with the two loop variables as arguments.
\<close>

function letterLoop :: "nat \<Rightarrow> string \<Rightarrow> string" where
  "letterLoop colIndex result =
     (if colIndex > 0
      then letterLoop ((colIndex - 1) div 26) (char_of (65 + (colIndex - 1) mod 26) # result)
      else result)"
  by pat_completeness auto
termination
  by (relation "measure fst") auto

declare letterLoop.simps [simp del]

definition columnIndexToLetter :: "nat \<Rightarrow> string" where
  "columnIndexToLetter colIndex = letterLoop (colIndex + 1) []"

text \<open>
  \<^verbatim>\<open>
  function getCellReference(rowIndex: number, colIndex: number): string {
    return `${columnIndexToLetter(colIndex)}${rowIndex}`;
  }
  \<close>
\<close>

definition getCellReference :: "int \<Rightarrow> nat \<Rightarrow> string" where
  "getCellReference rowIndex colIndex = columnIndexToLetter colIndex @ showInt rowIndex"

text \<open>
  The value of a letter string read as a bijective base-26 numeral: \<open>A\<close> is the digit 1,
  \<open>Z\<close> the digit 26, the most significant digit first.
\<close>

definition bijective26 :: "string \<Rightarrow> nat" where
  "bijective26 s = foldl (\<lambda>a c. 26 * a + (of_char c - 64)) 0 s"

definition isUpperLetter :: "char \<Rightarrow> bool" where
  "isUpperLetter c = (65 \<le> (of_char c :: nat) \<and> (of_char c :: nat) \<le> 90)"

section \<open>Data model\<close>

text \<open>
  \<^verbatim>\<open>
  export type CellResolved = {
    t: 's' | 'n' | 'b' | 'd' | 'e'; // string, number, boolean, date, error
    v: string | number;
  };
  export type Row = {
    cells: (Cell | undefined | null)[];
    rowIndex?: number;
  };
  \<close>
  A number whose value the writer never inspects (a numeric cell payload, a shared-string
  index, a column width) has the abstract type \<open>'n\<close>. The public \<open>Cell\<close> is only handed
  to \<open>resolveCell\<close> and to the width tracker, so it is the abstract type \<open>'c\<close>.
\<close>

datatype cellTag = T_s | T_n | T_b | T_d | T_e

fun tagText :: "cellTag \<Rightarrow> string" where
  "tagText T_s = ''s''"
| "tagText T_n = ''n''"
| "tagText T_b = ''b''"
| "tagText T_d = ''d''"
| "tagText T_e = ''e''"

datatype 'n cellValue = VString string | VNumber 'n

record 'n CellResolved =
  cr_t :: cellTag
  cr_v :: "'n cellValue"

text \<open>
  A slot of the cells array: \<^verbatim>\<open>Cell | undefined | null\<close>. The writer treats
  \<open>undefined\<close> and \<open>null\<close> alike, as holes.
\<close>

datatype 'c slot = Undefined | Null | Cell 'c

text \<open>Record fields carry the record's prefix; the names after it are the source's.\<close>

record 'c Row =
  row_cells :: "'c slot list"
  row_rowIndex :: "int option"

text \<open>\<^verbatim>\<open>c !== undefined && c !== null\<close>\<close>

fun isPresent :: "'c slot \<Rightarrow> bool" where
  "isPresent Undefined = False"
| "isPresent Null = False"
| "isPresent (Cell c) = True"

section \<open>Collaborators outside the writer\<close>

text \<open>
  \<open>resolveCell\<close> (cell-resolver), \<open>escapeXml\<close> (utils/xml) and \<open>ColumnWidthTracker\<close>
  (utils/column-widths) are imported by the writer; they are parameters of the model, and so
  is the text of a number, \<open>numberToString\<close>. The cast \<^verbatim>\<open>resolved.v as string\<close> is erased at
  run time, so \<open>escapeXml\<close> and the shared-string resolver receive the payload as it is.
  The tracker is a state of type \<open>'tr\<close>: \<open>newTracker enabled\<close> is the constructor,
  \<open>updateColumnWidth\<close> returns the updated state, \<open>getAllWidths\<close> reads the map from column
  index to width.
\<close>

record ('c, 'n, 'tr) collaborators =
  resolveCell :: "'c \<Rightarrow> 'n CellResolved"
  escapeXml :: "'n cellValue \<Rightarrow> string"
  numberToString :: "'n \<Rightarrow> string"
  newTracker :: "bool \<Rightarrow> 'tr"
  updateColumnWidth :: "nat \<Rightarrow> 'c \<Rightarrow> 'tr \<Rightarrow> 'tr"
  getAllWidths :: "'tr \<Rightarrow> (int \<rightharpoonup> 'n)"

text \<open>\<^verbatim>\<open>String(resolved.v)\<close>: a string is itself, a number is its text.\<close>

fun valueToString :: "('c, 'n, 'tr) collaborators \<Rightarrow> 'n cellValue \<Rightarrow> string" where
  "valueToString X (VString s) = s"
| "valueToString X (VNumber n) = numberToString X n"

section \<open>Cells\<close>

text \<open>
  \<^verbatim>\<open>
  export function serializeCell(cell, rowIndex, colIndex, getStringIndex?): string {
    const resolved = resolveCell(cell);
    const cellRef = getCellReference(rowIndex, colIndex);
    const styleAttr = ' s="0"'; // Default style index
    const refAttr = ` r="${cellRef}"`;
    if (resolved.t === 's' && getStringIndex) {
      const index = getStringIndex(resolved.v as string);
      return `<c${refAttr}${styleAttr} t="s"><v>${index}</v></c>`;
    }
    if (resolved.t === 's' && !getStringIndex) {
      const text = escapeXml(resolved.v as string);
      return `<c${refAttr}${styleAttr} t="inlineStr"><is><t>${text}</t></is></c>`;
    }
    const typeAttr = resolved.t !== 'n' ? ` t="${resolved.t}"` : '';
    const value = String(resolved.v);
    return `<c${refAttr}${styleAttr}${typeAttr}><v>${value}</v></c>`;
  }
  \<close>
  The optional resolver is an \<open>option\<close>; a function is always truthy.
\<close>

definition serializeCell ::
  "('c, 'n, 'tr) collaborators \<Rightarrow> 'c \<Rightarrow> int \<Rightarrow> nat \<Rightarrow> ('n cellValue \<Rightarrow> 'n) option \<Rightarrow> string" where
  \<open>serializeCell X cell rowIndex colIndex getStringIndex =
     (let resolved = resolveCell X cell;
          cellRef = getCellReference rowIndex colIndex;
          styleAttr = '' s="0"'';
          refAttr = '' r="'' @ cellRef @ ''"''
      in case (cr_t resolved = T_s, getStringIndex) of
           (True, Some g) \<Rightarrow>
             (let index = g (cr_v resolved)
              in ''<c'' @ refAttr @ styleAttr @ '' t="s"><v>'' @ numberToString X index @ ''</v></c>'')
         | (True, None) \<Rightarrow>
             (let text = escapeXml X (cr_v resolved)
              in ''<c'' @ refAttr @ styleAttr @ '' t="inlineStr"><is><t>'' @ text @ ''</t></is></c>'')
         | (False, _) \<Rightarrow>
             (let typeAttr = (if cr_t resolved \<noteq> T_n then '' t="'' @ tagText (cr_t resolved) @ ''"'' else []);
                  value = valueToString X (cr_v resolved)
              in ''<c'' @ refAttr @ styleAttr @ typeAttr @ ''><v>'' @ value @ ''</v></c>''))\<close>

section \<open>Rows\<close>

text \<open>\<^verbatim>\<open>Array.prototype.findIndex\<close>: the first index whose element satisfies \<open>p\<close>, or \<open>-1\<close>.\<close>

fun findIndexFrom :: "('a \<Rightarrow> bool) \<Rightarrow> 'a list \<Rightarrow> nat \<Rightarrow> int" where
  "findIndexFrom p [] i = - 1"
| "findIndexFrom p (x # xs) i = (if p x then int i else findIndexFrom p xs (Suc i))"

definition findIndex :: "('a \<Rightarrow> bool) \<Rightarrow> 'a list \<Rightarrow> int" where
  "findIndex p xs = findIndexFrom p xs 0"

text \<open>
  \<^verbatim>\<open>
  let lastCol = firstCol;
  for (let i = row.cells.length - 1; i >= 0; i--) {
    if (row.cells[i] !== undefined && row.cells[i] !== null) { lastCol = i + 1; break; }
  }
  \<close>
  The second argument of \<open>lastColLoop\<close> is \<open>i + 1\<close>: the loop stops when it is 0.
\<close>

fun lastColLoop :: "'c slot list \<Rightarrow> nat \<Rightarrow> int \<Rightarrow> int" where
  "lastColLoop cs 0 lastCol = lastCol"
| "lastColLoop cs (Suc i) lastCol =
     (if isPresent (cs ! i) then int i + 1 else lastColLoop cs i lastCol)"

text \<open>
  The callback of \<^verbatim>\<open>row.cells.map((cell, colIndex) => ...)\<close>, applied from column
  \<open>colIndex\<close> on: a hole gives the empty string; a present cell first updates the width
  tracker, when one was passed, and then gives its XML. The tracker state is threaded
  through.
\<close>

fun mapCells ::
  "('c, 'n, 'tr) collaborators \<Rightarrow> 'c slot list \<Rightarrow> int \<Rightarrow> nat \<Rightarrow> ('n cellValue \<Rightarrow> 'n) option
     \<Rightarrow> 'tr option \<Rightarrow> string list \<times> 'tr option" where
  "mapCells X [] rowIndex colIndex getStringIndex widthTracker = ([], widthTracker)"
| "mapCells X (Cell cell # cs) rowIndex colIndex getStringIndex widthTracker =
     (let widthTracker' = map_option (updateColumnWidth X colIndex cell) widthTracker;
          xml = serializeCell X cell rowIndex colIndex getStringIndex;
          (rest, widthTracker'') = mapCells X cs rowIndex (Suc colIndex) getStringIndex widthTracker'
      in (xml # rest, widthTracker''))"
| "mapCells X (hole # cs) rowIndex colIndex getStringIndex widthTracker =
     (let (rest, widthTracker') = mapCells X cs rowIndex (Suc colIndex) getStringIndex widthTracker
      in ([] # rest, widthTracker'))"

text \<open>
  \<^verbatim>\<open>
  export function serializeRow(row, getStringIndex?, widthTracker?): string {
    const rowIndex = row.rowIndex ?? 1;
    const rowIndexAttr = ` r="${rowIndex}"`;
    const firstColIndex = row.cells.findIndex((c) => c !== undefined && c !== null);
    const firstCol = firstColIndex >= 0 ? firstColIndex + 1 : 1;
    let lastCol = firstCol;
    for (...) { ... }
    const spansAttr = ` spans="${firstCol}:${lastCol}"`;
    const cellsXml = row.cells.map(...).join('');
    return `<row${rowIndexAttr}${spansAttr}>${cellsXml}</row>`;
  }
  \<close>
  The result is the XML together with the tracker state after the row.
\<close>

definition serializeRow ::
  "('c, 'n, 'tr) collaborators \<Rightarrow> 'c Row \<Rightarrow> ('n cellValue \<Rightarrow> 'n) option \<Rightarrow> 'tr option
     \<Rightarrow> string \<times> 'tr option" where
  \<open>serializeRow X row getStringIndex widthTracker =
     (let rowIndex = (case row_rowIndex row of None \<Rightarrow> 1 | Some r \<Rightarrow> r);
          rowIndexAttr = '' r="'' @ showInt rowIndex @ ''"'';
          firstColIndex = findIndex isPresent (row_cells row);
          firstCol = (if firstColIndex \<ge> 0 then firstColIndex + 1 else 1);
          lastCol = lastColLoop (row_cells row) (length (row_cells row)) firstCol;
          spansAttr = '' spans="'' @ showInt firstCol @ '':'' @ showInt lastCol @ ''"'';
          (parts, widthTracker') = mapCells X (row_cells row) rowIndex 0 getStringIndex widthTracker;
          cellsXml = concat parts
      in (''<row'' @ rowIndexAttr @ spansAttr @ ''>'' @ cellsXml @ ''</row>'', widthTracker'))\<close>

text \<open>
  What one slot of the cells array contributes to the row's XML: the cell's XML, and nothing
  for a hole. (The callback of the map above without the tracker.)
\<close>

definition slotXml ::
  "('c, 'n, 'tr) collaborators \<Rightarrow> int \<Rightarrow> ('n cellValue \<Rightarrow> 'n) option \<Rightarrow> 'c slot list \<Rightarrow> nat \<Rightarrow> string" where
  "slotXml X rowIndex getStringIndex cs colIndex =
     (case cs ! colIndex of Cell cell \<Rightarrow> serializeCell X cell rowIndex colIndex getStringIndex | _ \<Rightarrow> [])"

section \<open>Column width definitions\<close>

text \<open>
  \<open>ColumnWidthDefinition\<close> and \<open>SheetColumnWidthOptions\<close> are declared in xlsx/types;
  their fields are the ones the writer reads. A definition has \<open>columnIndex\<close> or
  \<open>columnRange: { from, to }\<close>, an optional \<open>width\<close> and an optional \<open>autoDetect\<close> flag; the
  flag is only tested for truth, so an absent flag is \<open>False\<close>. The writer tests
  \<open>columnIndex\<close> first and \<open>columnRange\<close> only when \<open>columnIndex\<close> is undefined, so the
  record keeps both as options.
\<close>

record ColumnRange =
  range_from :: int
  range_to :: int

record 'n ColumnWidthDefinition =
  def_columnIndex :: "int option"
  def_columnRange :: "ColumnRange option"
  def_width :: "'n option"
  def_autoDetect :: bool

record 'n SheetColumnWidthOptions =
  cw_autoDetectColumnWidth :: "bool option"
  cw_columnWidths :: "'n ColumnWidthDefinition list option"
  cw_defaultColumnWidth :: "'n option"

text \<open>
  \<^verbatim>\<open>
  export interface WriteSheetXmlOptions {
    getStringIndex?: (str: string) => number;
    columnWidths?: SheetColumnWidthOptions;
  }
  \<close>
\<close>

record 'n WriteSheetXmlOptions =
  opt_getStringIndex :: "('n cellValue \<Rightarrow> 'n) option"
  opt_columnWidths :: "'n SheetColumnWidthOptions option"

section \<open>The cols element\<close>

text \<open>
  The template literal that \<open>generateColsXml\<close> pushes in five places:
  \<^verbatim>\<open>`    <col min="${a}" max="${b}" width="${w}" customWidth="1"/>`\<close>
\<close>

definition colElement :: "('c, 'n, 'tr) collaborators \<Rightarrow> int \<Rightarrow> int \<Rightarrow> 'n \<Rightarrow> string" where
  \<open>colElement X a b w =
     ''    <col min="'' @ showInt a @ ''" max="'' @ showInt b @ ''" width="'' @ numberToString X w
       @ ''" customWidth="1"/>''\<close>

text \<open>
  The state of \<open>generateColsXml\<close> is the pair of \<open>colElements\<close> (an array of strings) and
  \<open>processedColumns\<close> (a set of numbers).

  The body of the loop over an auto-detect range:
  \<^verbatim>\<open>
  if (!processedColumns.has(i)) {
    const trackedWidth = trackedWidths.get(i);
    if (trackedWidth !== undefined) {
      colElements.push(`    <col min="${i + 1}" max="${i + 1}" width="${trackedWidth}" customWidth="1"/>`);
      processedColumns.add(i);
    }
  }
  \<close>
\<close>

definition autoDetectColumn ::
  "('c, 'n, 'tr) collaborators \<Rightarrow> (int \<rightharpoonup> 'n) \<Rightarrow> int \<Rightarrow> string list \<times> int set \<Rightarrow> string list \<times> int set" where
  "autoDetectColumn X trackedWidths i st =
     (case st of (colElements, processedColumns) \<Rightarrow>
        if i \<notin> processedColumns
        then (case trackedWidths i of
                Some trackedWidth \<Rightarrow>
                  (colElements @ [colElement X (i + 1) (i + 1) trackedWidth], insert i processedColumns)
              | None \<Rightarrow> (colElements, processedColumns))
        else (colElements, processedColumns))"

text \<open>
  The body of \<^verbatim>\<open>for (const def of columnWidths)\<close>:
  \<^verbatim>\<open>
  if (def.columnIndex !== undefined) {
    const colIndex = def.columnIndex;
    if (colIndex <= maxColumnIndex && !processedColumns.has(colIndex)) {
      const width = def.width ?? (def.autoDetect ? trackedWidths.get(colIndex) : undefined);
      if (width !== undefined) {
        colElements.push(`    <col min="${colIndex + 1}" max="${colIndex + 1}" width="${width}" customWidth="1"/>`);
        processedColumns.add(colIndex);
      }
    }
  } else if (def.columnRange) {
    const { from, to } = def.columnRange;
    const min = Math.max(0, from);
    const max = Math.min(maxColumnIndex, to);
    if (min <= max) {
      if (def.autoDetect) {
        for (let i = min; i <= max; i++) { ... }
        continue;
      }
      if (def.width !== undefined) {
        colElements.push(`    <col min="${min + 1}" max="${max + 1}" width="${def.width}" customWidth="1"/>`);
        for (let i = min; i <= max; i++) { processedColumns.add(i); }
      }
    }
  }
  \<close>
\<close>

definition processDef ::
  "('c, 'n, 'tr) collaborators \<Rightarrow> int \<Rightarrow> (int \<rightharpoonup> 'n) \<Rightarrow> 'n ColumnWidthDefinition
     \<Rightarrow> string list \<times> int set \<Rightarrow> string list \<times> int set" where
  "processDef X maxColumnIndex trackedWidths def st =
     (case st of (colElements, processedColumns) \<Rightarrow>
        (case def_columnIndex def of
           Some colIndex \<Rightarrow>
             if colIndex \<le> maxColumnIndex \<and> colIndex \<notin> processedColumns
             then (let width = (case def_width def of
                                  Some w \<Rightarrow> Some w
                                | None \<Rightarrow> (if def_autoDetect def then trackedWidths colIndex else None))
                   in case width of
                        Some w \<Rightarrow>
                          (colElements @ [colElement X (colIndex + 1) (colIndex + 1) w],
                           insert colIndex processedColumns)
                      | None \<Rightarrow> (colElements, processedColumns))
             else (colElements, processedColumns)
         | None \<Rightarrow>
             (case def_columnRange def of
                Some r \<Rightarrow>
                  (let min' = max 0 (range_from r);
                       max' = min maxColumnIndex (range_to r)
                   in if min' \<le> max'
                      then if def_autoDetect def
                           then fold (autoDetectColumn X trackedWidths) [min'..max'] (colElements, processedColumns)
                           else (case def_width def of
                                   Some w \<Rightarrow>
                                     (colElements @ [colElement X (min' + 1) (max' + 1) w],
                                      fold insert [min'..max'] processedColumns)
                                 | None \<Rightarrow> (colElements, processedColumns))
                      else (colElements, processedColumns))
              | None \<Rightarrow> (colElements, processedColumns))))"

text \<open>
  The body of \<^verbatim>\<open>for (let colIndex = 0; colIndex <= maxColumnIndex; colIndex++)\<close>:
  \<^verbatim>\<open>
  if (!processedColumns.has(colIndex)) {
    const trackedWidth = trackedWidths.get(colIndex);
    if (trackedWidth !== undefined) {
      colElements.push(... trackedWidth ...); processedColumns.add(colIndex);
    } else if (defaultWidth !== undefined) {
      colElements.push(... defaultWidth ...); processedColumns.add(colIndex);
    }
  }
  \<close>
\<close>

definition remainingColumn ::
  "('c, 'n, 'tr) collaborators \<Rightarrow> 'n option \<Rightarrow> (int \<rightharpoonup> 'n) \<Rightarrow> int
     \<Rightarrow> string list \<times> int set \<Rightarrow> string list \<times> int set" where
  "remainingColumn X defaultWidth trackedWidths colIndex st =
     (case st of (colElements, processedColumns) \<Rightarrow>
        if colIndex \<notin> processedColumns
        then (case trackedWidths colIndex of
                Some trackedWidth \<Rightarrow>
                  (colElements @ [colElement X (colIndex + 1) (colIndex + 1) trackedWidth],
                   insert colIndex processedColumns)
              | None \<Rightarrow>
                  (case defaultWidth of
                     Some d \<Rightarrow>
                       (colElements @ [colElement X (colIndex + 1) (colIndex + 1) d],
                        insert colIndex processedColumns)
                   | None \<Rightarrow> (colElements, processedColumns)))
        else (colElements, processedColumns))"

text \<open>
  \<open>generateColElements\<close> is \<open>generateColsXml\<close> from its first line after the guard
  \<^verbatim>\<open>maxColumnIndex < 0\<close> up to the last push: the loop over the definitions (when
  \<open>columnWidths\<close> is not undefined), the loop over the columns, and
  \<^verbatim>\<open>
  if (colElements.length === 0 && defaultWidth !== undefined) {
    colElements.push(`    <col min="1" max="${maxColumnIndex + 1}" width="${defaultWidth}" customWidth="1"/>`);
  }
  \<close>
  Its value is the final \<open>colElements\<close>.
\<close>

definition generateColElements ::
  "('c, 'n, 'tr) collaborators \<Rightarrow> int \<Rightarrow> 'n option \<Rightarrow> 'n ColumnWidthDefinition list option
     \<Rightarrow> (int \<rightharpoonup> 'n) \<Rightarrow> string list" where
  "generateColElements X maxColumnIndex defaultWidth columnWidths trackedWidths =
     (let st0 = ([], {});
          st1 = (case columnWidths of
                   Some defs \<Rightarrow> fold (processDef X maxColumnIndex trackedWidths) defs st0
                 | None \<Rightarrow> st0);
          st2 = fold (remainingColumn X defaultWidth trackedWidths) [0..maxColumnIndex] st1;
          colElements = fst st2
      in case defaultWidth of
           Some d \<Rightarrow>
             if length colElements = 0
             then colElements @ [colElement X 1 (maxColumnIndex + 1) d]
             else colElements
         | None \<Rightarrow> colElements)"

text \<open>\<^verbatim>\<open>Array.prototype.join\<close> on strings.\<close>

fun join :: "string \<Rightarrow> string list \<Rightarrow> string" where
  "join sep [] = []"
| "join sep [x] = x"
| "join sep (x # y # ys) = x @ sep @ join sep (y # ys)"

text \<open>
  \<^verbatim>\<open>
  function generateColsXml(maxColumnIndex, defaultWidth, columnWidths, trackedWidths): string {
    if (maxColumnIndex < 0) { return ''; }
    ...
    if (colElements.length === 0) { return ''; }
    return `<cols>\n${colElements.join('\n')}\n  </cols>`;
  }
  \<close>
\<close>

definition generateColsXml ::
  "('c, 'n, 'tr) collaborators \<Rightarrow> int \<Rightarrow> 'n option \<Rightarrow> 'n ColumnWidthDefinition list option
     \<Rightarrow> (int \<rightharpoonup> 'n) \<Rightarrow> string" where
  "generateColsXml X maxColumnIndex defaultWidth columnWidths trackedWidths =
     (if maxColumnIndex < 0 then []
      else (let colElements = generateColElements X maxColumnIndex defaultWidth columnWidths trackedWidths
            in if length colElements = 0 then []
               else ''<cols>'' @ [CHR 0x0A] @ join [CHR 0x0A] colElements @ [CHR 0x0A] @ ''  </cols>''))"

text \<open>
  \<^verbatim>\<open>
  function generateSheetFormatPr(defaultWidth: number | undefined): string {
    if (defaultWidth === undefined) { return ''; }
    return `    <sheetFormatPr defaultColWidth="${defaultWidth}"/>`;
  }
  \<close>
\<close>

definition generateSheetFormatPr :: "('c, 'n, 'tr) collaborators \<Rightarrow> 'n option \<Rightarrow> string" where
  \<open>generateSheetFormatPr X defaultWidth =
     (case defaultWidth of
        None \<Rightarrow> []
      | Some d \<Rightarrow> ''    <sheetFormatPr defaultColWidth="'' @ numberToString X d @ ''"/>'')\<close>

section \<open>The worksheet\<close>

text \<open>
  \<open>writeSheetXml\<close> is an async generator over an async iterable of rows. The model is the
  list of the fragments it yields when the row source is a finite list and the consumer
  reads to the end.

  \<open>yieldRows\<close> is the loop \<^verbatim>\<open>for (const row of rows) yield serializeRow(row, getStringIndex, widthTracker)\<close>,
  the same in both paths; the tracker that \<open>serializeRow\<close> updates is threaded through.
\<close>

fun yieldRows ::
  "('c, 'n, 'tr) collaborators \<Rightarrow> 'c Row list \<Rightarrow> ('n cellValue \<Rightarrow> 'n) option \<Rightarrow> 'tr option
     \<Rightarrow> string list \<times> 'tr option" where
  "yieldRows X [] getStringIndex widthTracker = ([], widthTracker)"
| "yieldRows X (row # rows) getStringIndex widthTracker =
     (let (xml, widthTracker') = serializeRow X row getStringIndex widthTracker;
          (rest, widthTracker'') = yieldRows X rows getStringIndex widthTracker'
      in (xml # rest, widthTracker''))"

text \<open>
  \<^verbatim>\<open>
  const needsColsXml =
    (columnWidthOptions?.columnWidths !== undefined && columnWidthOptions.columnWidths.length > 0) ||
    columnWidthOptions?.autoDetectColumnWidth === true;
  const autoDetect = columnWidthOptions?.autoDetectColumnWidth ?? false;
  const hasPerColumnAutoDetect = columnWidthOptions?.columnWidths?.some(def => def.autoDetect) ?? false;
  const needsWidthTracking = autoDetect || hasPerColumnAutoDetect;
  \<close>
  Optional chaining \<^verbatim>\<open>a?.f\<close> is \<open>Option.bind a f\<close>.
\<close>

definition needsColsXml :: "'n SheetColumnWidthOptions option \<Rightarrow> bool" where
  "needsColsXml columnWidthOptions =
     ((case Option.bind columnWidthOptions cw_columnWidths of
         Some defs \<Rightarrow> length defs > 0
       | None \<Rightarrow> False)
      \<or> Option.bind columnWidthOptions cw_autoDetectColumnWidth = Some True)"

definition needsWidthTracking :: "'n SheetColumnWidthOptions option \<Rightarrow> bool" where
  "needsWidthTracking columnWidthOptions =
     (let autoDetect = (case Option.bind columnWidthOptions cw_autoDetectColumnWidth of
                          Some b \<Rightarrow> b | None \<Rightarrow> False);
          hasPerColumnAutoDetect = (case Option.bind columnWidthOptions cw_columnWidths of
                                      Some defs \<Rightarrow> list_ex def_autoDetect defs | None \<Rightarrow> False)
      in autoDetect \<or> hasPerColumnAutoDetect)"

text \<open>
  The fast path:
  \<^verbatim>\<open>
  if (columnWidthOptions?.defaultColumnWidth !== undefined) {
    yield generateSheetFormatPr(columnWidthOptions.defaultColumnWidth);
  }
  yield '<sheetData>';
  for await (const row of rows) { yield serializeRow(row, getStringIndex, widthTracker); }
  yield '</sheetData></worksheet>';
  return;
  \<close>
\<close>

definition fastPath ::
  "('c, 'n, 'tr) collaborators \<Rightarrow> 'c Row list \<Rightarrow> ('n cellValue \<Rightarrow> 'n) option
     \<Rightarrow> 'n SheetColumnWidthOptions option \<Rightarrow> 'tr \<Rightarrow> string list" where
  "fastPath X rows getStringIndex columnWidthOptions widthTracker =
     (case Option.bind columnWidthOptions cw_defaultColumnWidth of
        Some d \<Rightarrow> [generateSheetFormatPr X (Some d)]
      | None \<Rightarrow> [])
     @ [''<sheetData>'']
     @ fst (yieldRows X rows getStringIndex (Some widthTracker))
     @ [''</sheetData></worksheet>'']"

text \<open>
  The buffering loop of the slow path; its state is \<open>allRows\<close>, \<open>maxColumnIndex\<close> and the
  tracker.
  \<^verbatim>\<open>
  for await (const row of rows) {
    allRows.push(row);
    maxColumnIndex = Math.max(maxColumnIndex, row.cells.length - 1);
    if (needsWidthTracking) {
      row.cells.forEach((cell, colIndex) => {
        if (cell !== undefined && cell !== null) { widthTracker.updateColumnWidth(colIndex, cell); }
      });
    }
  }
  \<close>
\<close>

fun trackCells :: "('c, 'n, 'tr) collaborators \<Rightarrow> 'c slot list \<Rightarrow> nat \<Rightarrow> 'tr \<Rightarrow> 'tr" where
  "trackCells X [] colIndex widthTracker = widthTracker"
| "trackCells X (Cell cell # cs) colIndex widthTracker =
     trackCells X cs (Suc colIndex) (updateColumnWidth X colIndex cell widthTracker)"
| "trackCells X (hole # cs) colIndex widthTracker = trackCells X cs (Suc colIndex) widthTracker"

definition bufferRow ::
  "('c, 'n, 'tr) collaborators \<Rightarrow> bool \<Rightarrow> 'c Row \<Rightarrow> 'c Row list \<times> int \<times> 'tr \<Rightarrow> 'c Row list \<times> int \<times> 'tr" where
  "bufferRow X tracking row st =
     (case st of (allRows, maxColumnIndex, widthTracker) \<Rightarrow>
        (allRows @ [row],
         max maxColumnIndex (int (length (row_cells row)) - 1),
         if tracking then trackCells X (row_cells row) 0 widthTracker else widthTracker))"

text \<open>
  The slow path:
  \<^verbatim>\<open>
  const allRows: Row[] = [];
  let maxColumnIndex = -1;
  for await (const row of rows) { ... }
  const sheetFormatPr = generateSheetFormatPr(columnWidthOptions?.defaultColumnWidth);
  const colsXml = needsColsXml
    ? generateColsXml(maxColumnIndex, columnWidthOptions?.defaultColumnWidth,
        columnWidthOptions?.columnWidths, widthTracker.getAllWidths())
    : '';
  if (sheetFormatPr) { yield sheetFormatPr; }
  if (colsXml) { yield colsXml; }
  yield '<sheetData>';
  for (const row of allRows) { yield serializeRow(row, getStringIndex, widthTracker); }
  yield '</sheetData></worksheet>';
  \<close>
  The two flags are arguments, as they are variables of the enclosing function.
\<close>

definition slowPath ::
  "('c, 'n, 'tr) collaborators \<Rightarrow> 'c Row list \<Rightarrow> ('n cellValue \<Rightarrow> 'n) option
     \<Rightarrow> 'n SheetColumnWidthOptions option \<Rightarrow> bool \<Rightarrow> bool \<Rightarrow> 'tr \<Rightarrow> string list" where
  "slowPath X rows getStringIndex columnWidthOptions needsCols tracking widthTracker =
     (case fold (bufferRow X tracking) rows ([], - 1, widthTracker) of
        (allRows, maxColumnIndex, widthTracker') \<Rightarrow>
          (let sheetFormatPr = generateSheetFormatPr X (Option.bind columnWidthOptions cw_defaultColumnWidth);
               colsXml = (if needsCols
                          then generateColsXml X maxColumnIndex
                                 (Option.bind columnWidthOptions cw_defaultColumnWidth)
                                 (Option.bind columnWidthOptions cw_columnWidths)
                                 (getAllWidths X widthTracker')
                          else [])
           in (if sheetFormatPr \<noteq> [] then [sheetFormatPr] else [])
              @ (if colsXml \<noteq> [] then [colsXml] else [])
              @ [''<sheetData>'']
              @ fst (yieldRows X allRows getStringIndex (Some widthTracker'))
              @ [''</sheetData></worksheet>'']))"

text \<open>
  \<^verbatim>\<open>
  export async function* writeSheetXml(rows, options?): AsyncIterable<string> {
    yield '<?xml version="1.0" encoding="UTF-8" standalone="yes"?>\n<worksheet xmlns="http://schemas.openxmlformats.org/spreadsheetml/2006/main">';
    const getStringIndex = options?.getStringIndex;
    const columnWidthOptions = options?.columnWidths;
    ...
    const widthTracker = new ColumnWidthTracker(needsWidthTracking);
    if (!needsColsXml) { ... fast path ...; return; }
    ... slow path ...
  }
  \<close>
\<close>

definition prolog :: string where
  \<open>prolog = ''<?xml version="1.0" encoding="UTF-8" standalone="yes"?>'' @ [CHR 0x0A]
     @ ''<worksheet xmlns="http://schemas.openxmlformats.org/spreadsheetml/2006/main">''\<close>

definition writeSheetXml ::
  "('c, 'n, 'tr) collaborators \<Rightarrow> 'c Row list \<Rightarrow> 'n WriteSheetXmlOptions option \<Rightarrow> string list" where
  "writeSheetXml X rows options =
     (let getStringIndex = Option.bind options opt_getStringIndex;
          columnWidthOptions = Option.bind options opt_columnWidths;
          needsCols = needsColsXml columnWidthOptions;
          tracking = needsWidthTracking columnWidthOptions;
          widthTracker = newTracker X tracking
      in prolog #
         (if \<not> needsCols
          then fastPath X rows getStringIndex columnWidthOptions widthTracker
          else slowPath X rows getStringIndex columnWidthOptions needsCols tracking widthTracker))"

section \<open>Vocabulary of the statements\<close>

text \<open>
  The declaration of one column with its tracked width, if it has one; with its tracked
  width or else the default width, if there is one; and with the default width only when
  it has no tracked width.
\<close>

definition trackedElement :: "('c, 'n, 'tr) collaborators \<Rightarrow> (int \<rightharpoonup> 'n) \<Rightarrow> int \<Rightarrow> string list" where
  "trackedElement X trackedWidths i =
     (case trackedWidths i of Some t \<Rightarrow> [colElement X (i + 1) (i + 1) t] | None \<Rightarrow> [])"

definition defaultElement :: "('c, 'n, 'tr) collaborators \<Rightarrow> 'n option \<Rightarrow> int \<Rightarrow> string list" where
  "defaultElement X defaultWidth i =
     (case defaultWidth of Some d \<Rightarrow> [colElement X (i + 1) (i + 1) d] | None \<Rightarrow> [])"

definition fallbackElement ::
  "('c, 'n, 'tr) collaborators \<Rightarrow> 'n option \<Rightarrow> (int \<rightharpoonup> 'n) \<Rightarrow> int \<Rightarrow> string list" where
  "fallbackElement X defaultWidth trackedWidths i =
     (case trackedWidths i of
        Some t \<Rightarrow> [colElement X (i + 1) (i + 1) t]
      | None \<Rightarrow> defaultElement X defaultWidth i)"

definition untrackedDefault ::
  "('c, 'n, 'tr) collaborators \<Rightarrow> 'n option \<Rightarrow> (int \<rightharpoonup> 'n) \<Rightarrow> int \<Rightarrow> string list" where
  "untrackedDefault X defaultWidth trackedWidths i =
     (case trackedWidths i of Some t \<Rightarrow> [] | None \<Rightarrow> defaultElement X defaultWidth i)"

text \<open>
  The width a per-column-index definition resolves to:
  \<^verbatim>\<open>def.width ?? (def.autoDetect ? trackedWidths.get(colIndex) : undefined)\<close>.
\<close>

definition resolvedWidth :: "(int \<rightharpoonup> 'n) \<Rightarrow> 'n ColumnWidthDefinition \<Rightarrow> int \<Rightarrow> 'n option" where
  "resolvedWidth trackedWidths def colIndex =
     (case def_width def of
        Some w \<Rightarrow> Some w
      | None \<Rightarrow> (if def_autoDetect def then trackedWidths colIndex else None))"

text \<open>The cols element holding the given declarations.\<close>

definition colsBlock :: "string list \<Rightarrow> string" where
  "colsBlock colElements =
     ''<cols>'' @ [CHR 0x0A] @ join [CHR 0x0A] colElements @ [CHR 0x0A] @ ''  </cols>''"

section \<open>An instance of the collaborators, for evaluation\<close>

text \<open>
  The general statements below hold for every instance of the collaborators. The examples
  run the model on concrete rows, with integers as numbers and \<open>showInt\<close> as their text;
  \<open>generateColsXml\<close> uses nothing else of the instance.
\<close>

text \<open>
  Modelled from the spec: \<open>resolveCell\<close> (xml/cell-resolver is not among the sources).
  Text passes through with the string tag, a number passes through with the numeric tag, a
  boolean becomes the text 1 or 0 with the boolean tag, an absent value is the empty text
  with the string tag.
\<close>

datatype demoCell = CString string | CNumber int | CBoolean bool | CNull

fun demoResolveCell :: "demoCell \<Rightarrow> int CellResolved" where
  "demoResolveCell (CString s) = \<lparr>cr_t = T_s, cr_v = VString s\<rparr>"
| "demoResolveCell (CNumber n) = \<lparr>cr_t = T_n, cr_v = VNumber n\<rparr>"
| "demoResolveCell (CBoolean b) = \<lparr>cr_t = T_b, cr_v = VString (if b then ''1'' else ''0'')\<rparr>"
| "demoResolveCell CNull = \<lparr>cr_t = T_s, cr_v = VString []\<rparr>"

text \<open>
  Modelled from the spec: \<open>escapeXml\<close> (utils/xml is not among the sources). Control
  characters in the range 0x00 to 0x1F other than tab, newline and carriage return are
  stripped, and then the markup characters of the text are escaped.
\<close>

definition demoStripped :: "char \<Rightarrow> bool" where
  "demoStripped c =
     ((of_char c :: nat) \<le> 31 \<and> (of_char c :: nat) \<noteq> 9 \<and> (of_char c :: nat) \<noteq> 10
      \<and> (of_char c :: nat) \<noteq> 13)"

fun demoEscapeChar :: "char \<Rightarrow> string" where
  "demoEscapeChar c =
     (if c = CHR ''&'' then ''&amp;''
      else if c = CHR ''<'' then ''&lt;''
      else if c = CHR ''>'' then ''&gt;''
      else if c = CHR 0x22 then ''&quot;''
      else if c = CHR 0x27 then ''&apos;''
      else [c])"

definition demoEscapeText :: "string \<Rightarrow> string" where
  "demoEscapeText s = concat (map demoEscapeChar (filter (\<lambda>c. \<not> demoStripped c) s))"

fun demoEscapeXml :: "int cellValue \<Rightarrow> string" where
  "demoEscapeXml (VString s) = demoEscapeText s"
| "demoEscapeXml (VNumber n) = demoEscapeText (showInt n)"

text \<open>
  Modelled from the spec: \<open>ColumnWidthTracker\<close> (utils/column-widths is not among the
  sources). \<open>updateColumnWidth\<close> keeps the running maximum of a width computed from the
  cell's text, and does nothing when the tracker was constructed disabled; \<open>getAllWidths\<close>
  is the map accumulated so far, empty at construction.
\<close>

fun demoCellText :: "demoCell \<Rightarrow> string" where
  "demoCellText (CString s) = s"
| "demoCellText (CNumber n) = showInt n"
| "demoCellText (CBoolean b) = (if b then ''TRUE'' else ''FALSE'')"
| "demoCellText CNull = []"

type_synonym demoTracker = "bool \<times> (int \<rightharpoonup> int)"

definition demoUpdateColumnWidth :: "nat \<Rightarrow> demoCell \<Rightarrow> demoTracker \<Rightarrow> demoTracker" where
  "demoUpdateColumnWidth colIndex cell tr =
     (if fst tr
      then (True, (snd tr)(int colIndex \<mapsto>
              (case snd tr (int colIndex) of
                 None \<Rightarrow> int (length (demoCellText cell))
               | Some w \<Rightarrow> max w (int (length (demoCellText cell))))))
      else tr)"

definition demo :: "(demoCell, int, demoTracker) collaborators" where
  "demo = \<lparr> resolveCell = demoResolveCell,
            escapeXml = demoEscapeXml,
            numberToString = showInt,
            newTracker = (\<lambda>enabled. (enabled, Map.empty)),
            updateColumnWidth = demoUpdateColumnWidth,
            getAllWidths = snd \<rparr>"

text \<open>
  The row of the end-to-end example: \<^verbatim>\<open>{ cells: [{value:"Name"}, {value:42}, null, {value:true}], rowIndex: 3 }\<close>.
\<close>

definition demoRow :: "demoCell Row" where
  "demoRow = \<lparr> row_cells = [Cell (CString ''Name''), Cell (CNumber 42), Null, Cell (CBoolean True)],
               row_rowIndex = Some 3 \<rparr>"

definition demoHoles :: "demoCell Row" where
  "demoHoles = \<lparr> row_cells = [Null, Undefined], row_rowIndex = None \<rparr>"

text \<open>Width definitions and options of the examples.\<close>

definition indexDef :: "int \<Rightarrow> int option \<Rightarrow> bool \<Rightarrow> int ColumnWidthDefinition" where
  "indexDef c w a =
     \<lparr>def_columnIndex = Some c, def_columnRange = None, def_width = w, def_autoDetect = a\<rparr>"

definition rangeDef :: "int \<Rightarrow> int \<Rightarrow> int option \<Rightarrow> bool \<Rightarrow> int ColumnWidthDefinition" where
  "rangeDef f t w a =
     \<lparr>def_columnIndex = None, def_columnRange = Some \<lparr>range_from = f, range_to = t\<rparr>,
      def_width = w, def_autoDetect = a\<rparr>"

definition demoAutoDetectWithDefault :: "int WriteSheetXmlOptions" where
  "demoAutoDetectWithDefault =
     \<lparr>opt_getStringIndex = None,
      opt_columnWidths = Some \<lparr>cw_autoDetectColumnWidth = Some True, cw_columnWidths = None,
                               cw_defaultColumnWidth = Some 10\<rparr>\<rparr>"

definition demoNegativeIndex :: "int WriteSheetXmlOptions" where
  "demoNegativeIndex =
     \<lparr>opt_getStringIndex = None,
      opt_columnWidths = Some \<lparr>cw_autoDetectColumnWidth = None,
                               cw_columnWidths = Some [indexDef (- 1) (Some 5) False],
                               cw_defaultColumnWidth = None\<rparr>\<rparr>"

section \<open>Facts about column letters\<close>

lemma letterLoop_acc: "letterLoop c acc = letterLoop c [] @ acc"
proof (induction c arbitrary: acc rule: less_induct)
  case (less c)
  show ?case
  proof (cases "c > 0")
    case True
    let ?c' = "(c - 1) div 26"
    let ?ch = "char_of (65 + (c - 1) mod 26) :: char"
    have lt: "?c' < c" using True by simp
    have "letterLoop c acc = letterLoop ?c' (?ch # acc)"
      using True by (simp add: letterLoop.simps [of c acc])
    also have "\<dots> = letterLoop ?c' [] @ (?ch # acc)"
      by (rule less.IH [OF lt])
    also have "\<dots> = (letterLoop ?c' [] @ [?ch]) @ acc"
      by simp
    also have "letterLoop ?c' [] @ [?ch] = letterLoop ?c' [?ch]"
      by (rule less.IH [OF lt, symmetric])
    also have "letterLoop ?c' [?ch] = letterLoop c []"
      using True by (simp add: letterLoop.simps [of c "[]"])
    finally show ?thesis .
  next
    case False
    then show ?thesis by (simp add: letterLoop.simps [of 0])
  qed
qed

lemma letterLoop_zero: "letterLoop 0 acc = acc"
  by (simp add: letterLoop.simps [of 0])

lemma letterLoop_pos:
  "c > 0 \<Longrightarrow> letterLoop c [] = letterLoop ((c - 1) div 26) [] @ [char_of (65 + (c - 1) mod 26)]"
  using letterLoop_acc [of "(c - 1) div 26" "[char_of (65 + (c - 1) mod 26)]"]
  by (simp add: letterLoop.simps [of c "[]"])

lemma bijective26_snoc: "bijective26 (s @ [c]) = 26 * bijective26 s + (of_char c - 64)"
  by (simp add: bijective26_def)

lemma bijective26_letterLoop: "bijective26 (letterLoop c []) = c"
proof (induction c rule: less_induct)
  case (less c)
  show ?case
  proof (cases "c > 0")
    case True
    have lt: "(c - 1) div 26 < c" using True by simp
    have m: "(65 + (c - 1) mod 26) mod 256 = 65 + (c - 1) mod 26"
      by (rule mod_less) (simp add: less_le_trans [OF add_strict_left_mono [OF pos_mod_bound]])
    show ?thesis
      using True less.IH [OF lt]
      by (simp add: letterLoop_pos bijective26_snoc m)
  next
    case False
    then show ?thesis by (simp add: letterLoop_zero bijective26_def)
  qed
qed

lemma letterLoop_upper: "\<forall>ch \<in> set (letterLoop c []). isUpperLetter ch"
proof (induction c rule: less_induct)
  case (less c)
  show ?case
  proof (cases "c > 0")
    case True
    have lt: "(c - 1) div 26 < c" using True by simp
    have m: "(65 + (c - 1) mod 26) mod 256 = 65 + (c - 1) mod 26"
      by (rule mod_less) simp
    show ?thesis
      using True less.IH [OF lt]
      by (simp add: letterLoop_pos isUpperLetter_def m)
  next
    case False
    then show ?thesis by (simp add: letterLoop_zero)
  qed
qed

lemma letterLoop_bijective26:
  "(\<forall>ch \<in> set s. isUpperLetter ch) \<Longrightarrow> letterLoop (bijective26 s) [] = s"
proof (induction s rule: rev_induct)
  case Nil
  then show ?case by (simp add: bijective26_def letterLoop_zero)
next
  case (snoc ch s)
  define d where "d = (of_char ch :: nat) - 65"
  have up: "65 \<le> (of_char ch :: nat)" "(of_char ch :: nat) \<le> 90"
    using snoc.prems by (simp_all add: isUpperLetter_def)
  have d: "d < 26" "(of_char ch :: nat) - 64 = d + 1" "65 + d = of_char ch"
    using up by (simp_all add: d_def)
  have v: "bijective26 (s @ [ch]) = 26 * bijective26 s + d + 1"
    by (simp add: bijective26_snoc d)
  have IH: "letterLoop (bijective26 s) [] = s"
    using snoc by simp
  have "letterLoop (26 * bijective26 s + d + 1) []
        = letterLoop ((26 * bijective26 s + d) div 26) [] @ [char_of (65 + (26 * bijective26 s + d) mod 26)]"
    using letterLoop_pos [of "26 * bijective26 s + d + 1"] by simp
  also have "(26 * bijective26 s + d) div 26 = bijective26 s"
    using d(1) by simp
  also have "(26 * bijective26 s + d) mod 26 = d"
    using d(1) by simp
  also have "char_of (65 + d) = ch"
    by (simp add: d(3))
  finally show ?case
    by (simp add: v IH)
qed

lemma bijective26_pos: "s \<noteq> [] \<Longrightarrow> (\<forall>ch \<in> set s. isUpperLetter ch) \<Longrightarrow> 0 < bijective26 s"
proof (induction s rule: rev_induct)
  case Nil
  then show ?case by simp
next
  case (snoc ch s)
  have "65 \<le> (of_char ch :: nat)"
    using snoc.prems by (simp add: isUpperLetter_def)
  then show ?case
    by (simp add: bijective26_snoc)
qed

section \<open>Facts about rows\<close>

lemma findIndexFrom_first:
  "i < length xs \<Longrightarrow> p (xs ! i) \<Longrightarrow> (\<forall>j<i. \<not> p (xs ! j)) \<Longrightarrow> findIndexFrom p xs k = int (k + i)"
proof (induction xs arbitrary: i k)
  case Nil
  then show ?case by simp
next
  case (Cons x xs)
  show ?case
  proof (cases i)
    case 0
    then show ?thesis using Cons.prems by simp
  next
    case (Suc i')
    have nx: "\<not> p x" using Cons.prems(3) Suc by auto
    have "findIndexFrom p xs (Suc k) = int (Suc k + i')"
    proof (rule Cons.IH)
      show "i' < length xs" using Cons.prems(1) Suc by simp
      show "p (xs ! i')" using Cons.prems(2) Suc by simp
      show "\<forall>j<i'. \<not> p (xs ! j)" using Cons.prems(3) Suc by auto
    qed
    then show ?thesis using nx Suc by simp
  qed
qed

lemma findIndexFrom_none:
  "(\<forall>x \<in> set xs. \<not> p x) \<Longrightarrow> findIndexFrom p xs k = - 1"
  by (induction xs arbitrary: k) auto

lemma lastColLoop_last:
  "i < n \<Longrightarrow> isPresent (cs ! i) \<Longrightarrow> (\<forall>j. i < j \<and> j < n \<longrightarrow> \<not> isPresent (cs ! j))
   \<Longrightarrow> lastColLoop cs n fc = int i + 1"
proof (induction n)
  case 0
  then show ?case by simp
next
  case (Suc n)
  show ?case
  proof (cases "i = n")
    case True
    then show ?thesis using Suc.prems by simp
  next
    case False
    then have "i < n" using Suc.prems(1) by simp
    moreover have "\<not> isPresent (cs ! n)" using Suc.prems(3) \<open>i < n\<close> by simp
    ultimately show ?thesis using Suc by simp
  qed
qed

lemma lastColLoop_none:
  "(\<forall>j<n. \<not> isPresent (cs ! j)) \<Longrightarrow> lastColLoop cs n fc = fc"
  by (induction n) auto

lemma fst_mapCells:
  "fst (mapCells X cs r k g tr)
   = map (\<lambda>j. case cs ! j of Cell cell \<Rightarrow> serializeCell X cell r (k + j) g | _ \<Rightarrow> []) [0..<length cs]"
proof (induction cs arbitrary: k tr)
  case Nil
  then show ?case by simp
next
  case (Cons c cs)
  have up: "[0..<length (c # cs)] = 0 # map Suc [0..<length cs]"
    by (simp add: upt_conv_Cons map_Suc_upt del: upt_Suc)
  show ?case
    unfolding up
    by (cases c) (simp_all add: Cons.IH split_beta Let_def comp_def cong: slot.case_cong)
qed

lemma concat_map_filter:
  "(\<forall>x \<in> set xs. \<not> P x \<longrightarrow> f x = []) \<Longrightarrow> concat (map f xs) = concat (map f (filter P xs))"
  by (induction xs) auto

lemma present_indices:
  assumes "sorted_wrt (<) is" "set is = {i. i < length cs \<and> isPresent (cs ! i)}"
  shows "is = filter (\<lambda>i. isPresent (cs ! i)) [0..<length cs]"
proof (rule strict_sorted_equal)
  show "sorted_wrt (<) is" by fact
  show "sorted_wrt (<) (filter (\<lambda>i. isPresent (cs ! i)) [0..<length cs])"
    by (rule sorted_wrt_filter) (rule sorted_wrt_upt)
  show "set is = set (filter (\<lambda>i. isPresent (cs ! i)) [0..<length cs])"
    using assms(2) by auto
qed

lemma sorted_hd_least: "sorted_wrt (<) (is :: nat list) \<Longrightarrow> x \<in> set is \<Longrightarrow> hd is \<le> x"
  by (cases "is") auto

lemma sorted_last_greatest: "sorted_wrt (<) (is :: nat list) \<Longrightarrow> x \<in> set is \<Longrightarrow> x \<le> last is"
  by (cases "is" rule: rev_cases) (auto simp: sorted_wrt_append)


lemma serializeRow_fst:
  \<open>fst (serializeRow X row g tr) =
     (let rowIndex = (case row_rowIndex row of None \<Rightarrow> 1 | Some r \<Rightarrow> r);
          firstColIndex = findIndex isPresent (row_cells row);
          firstCol = (if firstColIndex \<ge> 0 then firstColIndex + 1 else 1);
          lastCol = lastColLoop (row_cells row) (length (row_cells row)) firstCol
      in ''<row r="'' @ showInt rowIndex @ ''" spans="'' @ showInt firstCol @ '':'' @ showInt lastCol @ ''">''
         @ concat (map (slotXml X rowIndex g (row_cells row)) [0..<length (row_cells row)])
         @ ''</row>'')\<close>
proof -
  have "fst (mapCells X cs r 0 g tr) = map (slotXml X r g cs) [0..<length cs]" for cs r
    by (simp add: fst_mapCells slotXml_def cong: slot.case_cong)
  then show ?thesis
    by (simp add: serializeRow_def Let_def split_beta)
qed

section \<open>Facts about the worksheet\<close>

lemma serializeRow_tracker_irrelevant:
  "fst (serializeRow X row g tr) = fst (serializeRow X row g None)"
  by (simp add: serializeRow_fst)

lemma fst_yieldRows:
  "fst (yieldRows X rows g tr) = map (\<lambda>row. fst (serializeRow X row g None)) rows"
proof (induction rows arbitrary: tr)
  case Nil
  then show ?case by simp
next
  case (Cons row rows)
  show ?case
    using serializeRow_tracker_irrelevant [of X row g tr]
    by (simp add: split_beta Cons.IH)
qed

lemma fold_bufferRow_rows:
  "fst (fold (bufferRow X tk) rows (acc, m, tr)) = acc @ rows"
proof (induction rows arbitrary: acc m tr)
  case Nil
  then show ?case by simp
next
  case (Cons row rows)
  obtain m' tr' where "bufferRow X tk row (acc, m, tr) = (acc @ [row], m', tr')"
    by (simp add: bufferRow_def)
  then show ?case by (simp add: Cons.IH)
qed

lemma fastPath_rows:
  "fastPath X rows g cwo tr =
     (case Option.bind cwo cw_defaultColumnWidth of Some d \<Rightarrow> [generateSheetFormatPr X (Some d)] | None \<Rightarrow> [])
     @ ''<sheetData>'' # map (\<lambda>row. fst (serializeRow X row g None)) rows @ [''</sheetData></worksheet>'']"
  by (simp add: fastPath_def fst_yieldRows)

lemma slowPath_rows:
  "\<exists>m tw. slowPath X rows g cwo nc tk tr =
     (if generateSheetFormatPr X (Option.bind cwo cw_defaultColumnWidth) \<noteq> []
      then [generateSheetFormatPr X (Option.bind cwo cw_defaultColumnWidth)] else [])
     @ (if nc \<and> generateColsXml X m (Option.bind cwo cw_defaultColumnWidth) (Option.bind cwo cw_columnWidths) tw \<noteq> []
        then [generateColsXml X m (Option.bind cwo cw_defaultColumnWidth) (Option.bind cwo cw_columnWidths) tw] else [])
     @ ''<sheetData>'' # map (\<lambda>row. fst (serializeRow X row g None)) rows @ [''</sheetData></worksheet>'']"
proof -
  obtain allRows m tr' where f: "fold (bufferRow X tk) rows ([], - 1, tr) = (allRows, m, tr')"
    by (cases "fold (bufferRow X tk) rows ([], - 1, tr)") auto
  have "allRows = rows"
    using fold_bufferRow_rows [of X tk rows "[]" "- 1" tr] f by simp
  then have "slowPath X rows g cwo nc tk tr =
     (if generateSheetFormatPr X (Option.bind cwo cw_defaultColumnWidth) \<noteq> []
      then [generateSheetFormatPr X (Option.bind cwo cw_defaultColumnWidth)] else [])
     @ (if nc \<and> generateColsXml X m (Option.bind cwo cw_defaultColumnWidth) (Option.bind cwo cw_columnWidths) (getAllWidths X tr') \<noteq> []
        then [generateColsXml X m (Option.bind cwo cw_defaultColumnWidth) (Option.bind cwo cw_columnWidths) (getAllWidths X tr')] else [])
     @ ''<sheetData>'' # map (\<lambda>row. fst (serializeRow X row g None)) rows @ [''</sheetData></worksheet>'']"
    by (simp add: slowPath_def f Let_def fst_yieldRows)
  then show ?thesis by blast
qed

lemma generateSheetFormatPr_nonempty: "generateSheetFormatPr X (Some d) \<noteq> []"
  by (simp add: generateSheetFormatPr_def)

lemma fast_slow_general:
  assumes "\<not> needsColsXml cwo"
  shows "fastPath X rows g cwo tr = slowPath X rows g cwo (needsColsXml cwo) tk tr'"
proof -
  obtain m tw where "slowPath X rows g cwo (needsColsXml cwo) tk tr' =
     (if generateSheetFormatPr X (Option.bind cwo cw_defaultColumnWidth) \<noteq> []
      then [generateSheetFormatPr X (Option.bind cwo cw_defaultColumnWidth)] else [])
     @ (if needsColsXml cwo \<and> generateColsXml X m (Option.bind cwo cw_defaultColumnWidth) (Option.bind cwo cw_columnWidths) tw \<noteq> []
        then [generateColsXml X m (Option.bind cwo cw_defaultColumnWidth) (Option.bind cwo cw_columnWidths) tw] else [])
     @ ''<sheetData>'' # map (\<lambda>row. fst (serializeRow X row g None)) rows @ [''</sheetData></worksheet>'']"
    using slowPath_rows [of X rows g cwo "needsColsXml cwo" tk tr'] by blast
  then show ?thesis
    using assms
    by (cases "Option.bind cwo cw_defaultColumnWidth")
       (simp_all add: fastPath_rows generateSheetFormatPr_nonempty, simp add: generateSheetFormatPr_def)
qed

section \<open>Facts about the cols element\<close>

lemma fold_insert_set: "fold insert xs P = P \<union> set xs"
  by (induction xs arbitrary: P) auto

lemma autoDetectColumn_step:
  "autoDetectColumn X tw i (els, P) =
     (els @ (if i \<in> P then [] else trackedElement X tw i),
      if i \<notin> P \<and> tw i \<noteq> None then insert i P else P)"
  by (auto simp: autoDetectColumn_def trackedElement_def split: option.splits)

lemma fold_autoDetectColumn:
  "distinct xs \<Longrightarrow>
   fold (autoDetectColumn X tw) xs (els, P) =
     (els @ concat (map (\<lambda>i. if i \<in> P then [] else trackedElement X tw i) xs),
      P \<union> {i \<in> set xs. tw i \<noteq> None})"
proof (induction xs arbitrary: els P)
  case Nil
  then show ?case by simp
next
  case (Cons x xs)
  let ?P' = "if x \<notin> P \<and> tw x \<noteq> None then insert x P else P"
  have d: "distinct xs" and nx: "x \<notin> set xs" using Cons.prems by simp_all
  have same: "map (\<lambda>i. if i \<in> ?P' then [] else trackedElement X tw i) xs
              = map (\<lambda>i. if i \<in> P then [] else trackedElement X tw i) xs"
    using nx by (intro map_cong) auto
  have sets: "?P' \<union> {i \<in> set xs. tw i \<noteq> None} = P \<union> {i \<in> set (x # xs). tw i \<noteq> None}"
    by auto
  show ?case
    by (simp only: fold_simps autoDetectColumn_step Cons.IH [OF d] same sets) simp
qed

lemma remainingColumn_step:
  "remainingColumn X dw tw i (els, P) =
     (els @ (if i \<in> P then [] else fallbackElement X dw tw i),
      if i \<notin> P \<and> (tw i \<noteq> None \<or> dw \<noteq> None) then insert i P else P)"
  by (auto simp: remainingColumn_def fallbackElement_def defaultElement_def split: option.splits)

lemma fold_remainingColumn:
  "distinct xs \<Longrightarrow>
   fst (fold (remainingColumn X dw tw) xs (els, P)) =
     els @ concat (map (\<lambda>i. if i \<in> P then [] else fallbackElement X dw tw i) xs)"
proof (induction xs arbitrary: els P)
  case Nil
  then show ?case by simp
next
  case (Cons x xs)
  let ?P' = "if x \<notin> P \<and> (tw x \<noteq> None \<or> dw \<noteq> None) then insert x P else P"
  have d: "distinct xs" and nx: "x \<notin> set xs" using Cons.prems by simp_all
  have same: "map (\<lambda>i. if i \<in> ?P' then [] else fallbackElement X dw tw i) xs
              = map (\<lambda>i. if i \<in> P then [] else fallbackElement X dw tw i) xs"
    using nx by (intro map_cong) auto
  show ?case
    by (simp only: fold_simps remainingColumn_step Cons.IH [OF d] same) simp
qed

lemma processDef_index_done:
  "def_columnIndex d = Some c \<Longrightarrow> c \<in> P \<Longrightarrow> processDef X m tw d (els, P) = (els, P)"
  by (simp add: processDef_def)

lemma processDef_index_beyond:
  "def_columnIndex d = Some c \<Longrightarrow> m < c \<Longrightarrow> processDef X m tw d st = st"
  by (cases st) (simp add: processDef_def)

lemma processDef_index_first:
  "def_columnIndex d = Some c \<Longrightarrow> c \<le> m \<Longrightarrow> c \<notin> P \<Longrightarrow> resolvedWidth tw d c = Some x \<Longrightarrow>
   processDef X m tw d (els, P) = (els @ [colElement X (c + 1) (c + 1) x], insert c P)"
  by (simp add: processDef_def resolvedWidth_def)

lemma processDef_index_nowidth:
  "def_columnIndex d = Some c \<Longrightarrow> resolvedWidth tw d c = None \<Longrightarrow> processDef X m tw d st = st"
  by (cases st) (simp add: processDef_def resolvedWidth_def)

lemma processDef_range_width:
  "def_columnIndex d = None \<Longrightarrow> def_columnRange d = Some r \<Longrightarrow> \<not> def_autoDetect d \<Longrightarrow>
   def_width d = Some w \<Longrightarrow>
   processDef X m tw d (els, P) =
     (if max 0 (range_from r) \<le> min m (range_to r)
      then (els @ [colElement X (max 0 (range_from r) + 1) (min m (range_to r) + 1) w],
            P \<union> {max 0 (range_from r)..min m (range_to r)})
      else (els, P))"
  by (simp add: processDef_def Let_def fold_insert_set)

lemma processDef_range_auto:
  "def_columnIndex d = None \<Longrightarrow> def_columnRange d = Some r \<Longrightarrow> def_autoDetect d \<Longrightarrow>
   processDef X m tw d (els, P) =
     (if max 0 (range_from r) \<le> min m (range_to r)
      then (els @ concat (map (\<lambda>i. if i \<in> P then [] else trackedElement X tw i)
                             [max 0 (range_from r)..min m (range_to r)]),
            P \<union> {i \<in> {max 0 (range_from r)..min m (range_to r)}. tw i \<noteq> None})
      else (els, P))"
  by (simp add: processDef_def Let_def fold_autoDetectColumn)

lemma processDef_range_empty:
  "def_columnIndex d = None \<Longrightarrow> def_columnRange d = Some r \<Longrightarrow>
   min m (range_to r) < max 0 (range_from r) \<Longrightarrow> processDef X m tw d st = st"
proof -
  assume a: "def_columnIndex d = None" "def_columnRange d = Some r"
    and e: "min m (range_to r) < max 0 (range_from r)"
  have "\<not> max 0 (range_from r) \<le> min m (range_to r)" using e by linarith
  then show ?thesis
    by (cases st) (simp only: processDef_def Let_def a option.case prod.case if_False)
qed

lemma processDef_mono: "snd st \<subseteq> snd (processDef X m tw d st)"
proof (cases st)
  case (Pair els P)
  show ?thesis
  proof (cases "def_columnIndex d")
    case (Some c)
    then show ?thesis
      by (auto simp: Pair processDef_def Let_def split: option.splits)
  next
    case None
    show ?thesis
    proof (cases "def_columnRange d")
      case N: None
      then show ?thesis by (simp add: Pair processDef_def None)
    next
      case (Some r)
      show ?thesis
      proof (cases "def_autoDetect d")
        case True
        then show ?thesis
          by (simp add: Pair processDef_range_auto [OF None Some True])
      next
        case False
        then show ?thesis
          by (auto simp: Pair processDef_def None Some Let_def fold_insert_set split: option.splits)
      qed
    qed
  qed
qed

lemma fold_processDef_mono: "snd st \<subseteq> snd (fold (processDef X m tw) ds st)"
proof (induction ds arbitrary: st)
  case Nil
  then show ?case by simp
next
  case (Cons d ds)
  have "snd st \<subseteq> snd (processDef X m tw d st)" by (rule processDef_mono)
  also have "\<dots> \<subseteq> snd (fold (processDef X m tw) ds (processDef X m tw d st))" by (rule Cons.IH)
  finally show ?case by simp
qed

lemma generate_without:
  assumes "\<And>st. processDef X m tw d st = st"
  shows "generateColElements X m dw (Some (xs @ d # ys)) tw = generateColElements X m dw (Some (xs @ ys)) tw"
  by (simp add: generateColElements_def assms)

lemma generate_duplicate:
  assumes d1: "def_columnIndex d1 = Some c" "c \<le> m" "resolvedWidth tw d1 c = Some x"
    and d2: "def_columnIndex d2 = Some c"
  shows "generateColElements X m dw (Some (xs @ d1 # ys @ d2 # zs)) tw
         = generateColElements X m dw (Some (xs @ d1 # ys @ zs)) tw"
proof -
  define st where "st = fold (processDef X m tw) xs ([], {})"
  define st1 where "st1 = processDef X m tw d1 st"
  define st2 where "st2 = fold (processDef X m tw) ys st1"
  have "c \<in> snd st1"
  proof (cases "c \<in> snd st")
    case True
    then show ?thesis using processDef_mono [of st X m tw d1] by (auto simp: st1_def)
  next
    case False
    then show ?thesis
      using processDef_index_first [OF d1(1) d1(2) _ d1(3), of "snd st" X "fst st"]
      by (simp add: st1_def)
  qed
  then have "c \<in> snd st2"
    using fold_processDef_mono [of st1 X m tw ys] by (auto simp: st2_def)
  then have "processDef X m tw d2 st2 = st2"
    using processDef_index_done [OF d2, of "snd st2" X m tw "fst st2"] by simp
  then show ?thesis
    by (simp add: generateColElements_def st_def st1_def st2_def)
qed

lemma upto_0_3: "[0..3] = [0, 1, 2, 3 :: int]"
  by (simp add: upto_rec1)

lemma upto_from_0: "3 \<le> m \<Longrightarrow> [0..m] = [0, 1, 2, 3] @ [4..m]"
  using upto_split2 [of 0 3 m] by (simp add: upto_0_3)

lemma generateColElements_nonempty:
  assumes "fst (fold (remainingColumn X dw tw) [0..m]
            (case cw of Some defs \<Rightarrow> fold (processDef X m tw) defs ([], {}) | None \<Rightarrow> ([], {}))) = els"
    and "els \<noteq> []"
  shows "generateColElements X m dw cw tw = els"
  using assms by (auto simp: generateColElements_def Let_def split: option.splits)

lemma explicit_then_range_elements:
  assumes m: "3 \<le> m"
    and d1: "def_columnIndex d1 = Some 2" "def_width d1 = Some w"
    and d2: "def_columnIndex d2 = None" "def_columnRange d2 = Some \<lparr>range_from = 0, range_to = 3\<rparr>" "def_autoDetect d2"
  shows "generateColElements X m dw (Some [d1, d2]) tw =
           [colElement X 3 3 w]
           @ concat (map (trackedElement X tw) [0, 1, 3])
           @ concat (map (untrackedDefault X dw tw) [0, 1, 3])
           @ concat (map (fallbackElement X dw tw) [4..m])"
proof -
  let ?P = "{2} \<union> {i \<in> {0..3}. tw i \<noteq> None}"
  let ?els = "[colElement X 3 3 w] @ concat (map (trackedElement X tw) [0, 1, 3])"
  have r1: "resolvedWidth tw d1 2 = Some w"
    by (simp add: resolvedWidth_def d1)
  have s1: "processDef X m tw d1 ([], {}) = ([colElement X 3 3 w], {2})"
    using processDef_index_first [OF d1(1) _ _ r1, of m "{}" X "[]"] m by simp
  have s2: "processDef X m tw d2 ([colElement X 3 3 w], {2}) = (?els, ?P)"
    using processDef_range_auto [OF d2, of X m tw "[colElement X 3 3 w]" "{2}"] m
    by (simp add: upto_0_3)
  have far: "map (\<lambda>i. if i \<in> ?P then [] else fallbackElement X dw tw i) [4..m]
             = map (fallbackElement X dw tw) [4..m]"
    by (intro map_cong) auto
  have near: "concat (map (\<lambda>i. if i \<in> ?P then [] else fallbackElement X dw tw i) [0, 1, 2, 3])
             = concat (map (untrackedDefault X dw tw) [0, 1, 3])"
    by (auto simp: untrackedDefault_def fallbackElement_def split: option.splits)
  have "fst (fold (remainingColumn X dw tw) [0..m] (?els, ?P))
        = ?els @ concat (map (\<lambda>i. if i \<in> ?P then [] else fallbackElement X dw tw i) [0..m])"
    by (rule fold_remainingColumn) simp
  also have "\<dots> = ?els @ concat (map (untrackedDefault X dw tw) [0, 1, 3])
                   @ concat (map (fallbackElement X dw tw) [4..m])"
    unfolding upto_from_0 [OF m] map_append concat_append far near by simp
  finally have "fst (fold (remainingColumn X dw tw) [0..m]
                  (case Some [d1, d2] of Some defs \<Rightarrow> fold (processDef X m tw) defs ([], {}) | None \<Rightarrow> ([], {})))
        = ?els @ concat (map (untrackedDefault X dw tw) [0, 1, 3])
               @ concat (map (fallbackElement X dw tw) [4..m])"
    by (simp add: s1 s2)
  then show ?thesis
    by (rule generateColElements_nonempty [THEN trans]) simp_all
qed

lemma generateColsXml_block:
  "generateColsXml X m dw cw tw =
     (if m < 0 \<or> generateColElements X m dw cw tw = [] then []
      else colsBlock (generateColElements X m dw cw tw))"
  by (simp add: generateColsXml_def colsBlock_def Let_def)

lemma generateColsXml_cong:
  "generateColElements X m dw cw tw = generateColElements X m dw cw' tw
   \<Longrightarrow> generateColsXml X m dw cw tw = generateColsXml X m dw cw' tw"
  by (simp add: generateColsXml_block)

lemma fold_remainingColumn_nothing:
  "fst (fold (remainingColumn X None Map.empty) xs st) = fst st"
  by (induction xs arbitrary: st) (auto simp: remainingColumn_def split: prod.splits)

lemma generateColElements_single_no_fallback:
  "generateColElements X m None (Some [d]) Map.empty = fst (processDef X m Map.empty d ([], {}))"
  by (simp add: generateColElements_def fold_remainingColumn_nothing)

lemma processDef_reversed_range:
  assumes "def_columnIndex d = None" "def_columnRange d = Some r" "range_to r < range_from r"
  shows "processDef X m tw d st = st"
proof -
  have "min m (range_to r) < max 0 (range_from r)"
    using assms(3) by linarith
  then show ?thesis
    by (rule processDef_range_empty [OF assms(1) assms(2)])
qed

lemma trackedElement_empty: "trackedElement X tw i = [] \<longleftrightarrow> tw i = None"
  by (simp add: trackedElement_def split: option.splits)

lemma processDef_range_nothing:
  assumes "def_columnIndex e = None" "def_columnRange e = Some r"
    and "if def_autoDetect e
         then \<forall>i \<in> {max 0 (range_from r)..min m (range_to r)}. tw i = None
         else def_width e = None"
  shows "processDef X m tw e st = st"
proof (cases st)
  case (Pair els P)
  show ?thesis
  proof (cases "def_autoDetect e")
    case True
    let ?xs = "[max 0 (range_from r)..min m (range_to r)]"
    have none: "\<forall>i \<in> set ?xs. tw i = None"
      using assms(3) True by simp
    then have "map (\<lambda>i. if i \<in> P then [] else trackedElement X tw i) ?xs = map (\<lambda>i. []) ?xs"
      by (intro map_cong) (auto simp: trackedElement_empty)
    then have "concat (map (\<lambda>i. if i \<in> P then [] else trackedElement X tw i) ?xs) = []"
      by simp
    moreover have "{i \<in> {max 0 (range_from r)..min m (range_to r)}. tw i \<noteq> None} = {}"
      using none by auto
    ultimately show ?thesis
      by (simp only: Pair processDef_range_auto [OF assms(1) assms(2) True]) simp
  next
    case False
    then have "def_width e = None" using assms(3) by simp
    then show ?thesis
      by (simp add: Pair processDef_def assms(1) assms(2) False Let_def)
  qed
qed

lemma processDef_elements_first:
  assumes "fst st = [] \<longrightarrow> snd st = {}"
  shows "fst (processDef X m tw d st) = [] \<longrightarrow> snd (processDef X m tw d st) = {}"
proof (cases st)
  case (Pair els P)
  show ?thesis
  proof (cases "def_columnIndex d")
    case (Some c)
    then show ?thesis
      using assms by (auto simp: Pair processDef_def Let_def split: option.splits)
  next
    case None
    show ?thesis
    proof (cases "def_columnRange d")
      case N: None
      then show ?thesis using assms by (simp add: Pair processDef_def None)
    next
      case (Some r)
      show ?thesis
      proof (cases "def_autoDetect d")
        case True
        show ?thesis
          using assms
          by (auto simp: Pair processDef_range_auto [OF None Some True] trackedElement_empty)
      next
        case False
        then show ?thesis
          using assms
          by (auto simp: Pair processDef_def None Some Let_def split: option.splits)
      qed
    qed
  qed
qed

lemma fold_processDef_elements_first:
  "(fst st = [] \<longrightarrow> snd st = {}) \<Longrightarrow>
   fst (fold (processDef X m tw) ds st) = [] \<longrightarrow> snd (fold (processDef X m tw) ds st) = {}"
proof (induction ds arbitrary: st)
  case Nil
  then show ?case by simp
next
  case (Cons d ds)
  have "fst (processDef X m tw d st) = [] \<longrightarrow> snd (processDef X m tw d st) = {}"
    using Cons.prems by (rule processDef_elements_first)
  then show ?case
    using Cons.IH [of "processDef X m tw d st"] by simp
qed

lemma fallbackElement_default_nonempty: "fallbackElement X (Some d) tw i \<noteq> []"
  by (simp add: fallbackElement_def defaultElement_def split: option.splits)

lemma remaining_with_default_nonempty:
  assumes "0 \<le> m" and "fst st = [] \<longrightarrow> snd st = {}"
  shows "fst (fold (remainingColumn X (Some d) tw) [0..m] st) \<noteq> []"
proof (cases st)
  case (Pair els P)
  have eq: "fst (fold (remainingColumn X (Some d) tw) [0..m] (els, P))
        = els @ concat (map (\<lambda>i. if i \<in> P then [] else fallbackElement X (Some d) tw i) [0..m])"
    by (rule fold_remainingColumn) simp
  show ?thesis
  proof (cases "els = []")
    case True
    then have P: "P = {}" using assms(2) Pair by simp
    have up: "[0..m] = 0 # [1..m]"
      using assms(1) by (simp add: upto_rec1)
    have "concat (map (\<lambda>i. if i \<in> P then [] else fallbackElement X (Some d) tw i) [0..m]) \<noteq> []"
      unfolding up by (simp add: P fallbackElement_default_nonempty)
    then show ?thesis
      unfolding Pair eq by simp
  next
    case False
    then show ?thesis by (simp add: Pair eq)
  qed
qed

lemma single_default_declaration_unreachable:
  assumes "0 \<le> m"
  shows "generateColElements X m (Some d) cw tw =
           fst (fold (remainingColumn X (Some d) tw) [0..m]
                  (case cw of Some defs \<Rightarrow> fold (processDef X m tw) defs ([], {}) | None \<Rightarrow> ([], {})))"
proof -
  let ?st1 = "case cw of Some defs \<Rightarrow> fold (processDef X m tw) defs ([], {}) | None \<Rightarrow> ([], {})"
  have "fst ?st1 = [] \<longrightarrow> snd ?st1 = {}"
    using fold_processDef_elements_first [of "([], {})" X m tw]
    by (cases cw) simp_all
  then have "fst (fold (remainingColumn X (Some d) tw) [0..m] ?st1) \<noteq> []"
    by (rule remaining_with_default_nonempty [OF assms])
  then show ?thesis
    by (simp add: generateColElements_def Let_def)
qed

lemma default_only_per_column:
  assumes "0 \<le> m"
  shows "generateColElements X m (Some d) None Map.empty = map (\<lambda>i. colElement X (i + 1) (i + 1) d) [0..m]"
proof -
  have "fst (fold (remainingColumn X (Some d) Map.empty) [0..m] ([], {}))
        = [] @ concat (map (\<lambda>i. if i \<in> {} then [] else fallbackElement X (Some d) Map.empty i) [0..m])"
    by (rule fold_remainingColumn) simp
  also have "\<dots> = map (\<lambda>i. colElement X (i + 1) (i + 1) d) [0..m]"
    by (induction "[0..m]") (simp_all add: fallbackElement_def defaultElement_def)
  finally show ?thesis
    by (simp add: single_default_declaration_unreachable [OF assms])
qed

lemma generateColsXml_nothing: "generateColsXml X m None None Map.empty = []"
  by (simp add: generateColsXml_def generateColElements_def fold_remainingColumn_nothing)

lemma fold_bufferRow_untracked:
  "snd (snd (fold (bufferRow X False) rows (acc, m, tr))) = tr"
proof (induction rows arbitrary: acc m)
  case Nil
  then show ?case by simp
next
  case (Cons row rows)
  obtain acc' m' where "bufferRow X False row (acc, m, tr) = (acc', m', tr)"
    by (simp add: bufferRow_def)
  then show ?case by (simp add: Cons.IH)
qed

lemma slowPath_no_options:
  assumes "getAllWidths X (snd (snd (fold (bufferRow X tk) rows ([], - 1, tr)))) = Map.empty"
  shows \<open>slowPath X rows g None nc tk tr =
     ''<sheetData>'' # map (\<lambda>row. fst (serializeRow X row g None)) rows @ [''</sheetData></worksheet>'']\<close>
proof -
  obtain allRows m tr' where f: "fold (bufferRow X tk) rows ([], - 1, tr) = (allRows, m, tr')"
    by (cases "fold (bufferRow X tk) rows ([], - 1, tr)") auto
  have r: "allRows = rows"
    using fold_bufferRow_rows [of X tk rows "[]" "- 1" tr] f by simp
  have w: "getAllWidths X tr' = Map.empty"
    using assms f by simp
  show ?thesis
    by (simp add: slowPath_def f r w Let_def fst_yieldRows generateColsXml_nothing generateSheetFormatPr_def)
qed

section \<open>Claims\<close>

text \<open>
  C1. With no column-width options, the slow path run as it runs (the cols element
  requested) on a tracker that has tracked no width computes an empty sheetFormatPr string
  and an empty cols element, yields no fragment for either, and so yields exactly the
  fragments of the fast path on the same rows and resolver: the opening of sheetData, the
  rows in order, the closing elements. The tracker has tracked no width in particular when
  tracking is off and it started with none, as the tracker that \<open>writeSheetXml\<close> constructs
  disabled; then the output of \<open>writeSheetXml\<close>, which takes the fast path, is the prolog
  followed by what the slow path yields. The same holds for the other value of the flag,
  when the cols element is not computed at all.
\<close>

theorem fast_slow_equivalence:
  \<open>(cwo = None
      \<and> getAllWidths X (snd (snd (fold (bufferRow X tk) rows ([], - 1, tr')))) = Map.empty \<longrightarrow>
        generateSheetFormatPr X (Option.bind cwo cw_defaultColumnWidth) = []
        \<and> generateColsXml X (fst (snd (fold (bufferRow X tk) rows ([], - 1, tr'))))
              (Option.bind cwo cw_defaultColumnWidth) (Option.bind cwo cw_columnWidths)
              (getAllWidths X (snd (snd (fold (bufferRow X tk) rows ([], - 1, tr'))))) = []
        \<and> slowPath X rows g cwo True tk tr' = fastPath X rows g cwo tr
        \<and> slowPath X rows g cwo True tk tr' =
            ''<sheetData>'' # map (\<lambda>row. fst (serializeRow X row g None)) rows @ [''</sheetData></worksheet>'']
        \<and> concat (prolog # slowPath X rows g cwo True tk tr') = concat (prolog # fastPath X rows g cwo tr))
   \<and> (cwo = None \<and> getAllWidths X tr' = Map.empty \<longrightarrow>
        slowPath X rows g cwo True False tr' = fastPath X rows g cwo tr)
   \<and> (Option.bind options opt_columnWidths = None \<and> getAllWidths X (newTracker X False) = Map.empty \<longrightarrow>
        writeSheetXml X rows options
        = prolog # slowPath X rows (Option.bind options opt_getStringIndex) None True False (newTracker X False))
   \<and> (cwo = None \<longrightarrow> slowPath X rows g cwo False tk tr' = fastPath X rows g cwo tr)\<close>
proof -
  let ?body = \<open>''<sheetData>'' # map (\<lambda>row. fst (serializeRow X row g None)) rows @ [''</sheetData></worksheet>'']\<close>
  have fast: "fastPath X rows g None t = ?body" for t
    by (simp add: fastPath_rows)
  have fast': \<open>fastPath X rows (Option.bind options opt_getStringIndex) None t =
      ''<sheetData>'' # map (\<lambda>row. fst (serializeRow X row (Option.bind options opt_getStringIndex) None)) rows
        @ [''</sheetData></worksheet>'']\<close> for t
    by (simp add: fastPath_rows)
  have untracked: "getAllWidths X (snd (snd (fold (bufferRow X False) rows ([], - 1, t)))) = Map.empty"
    if "getAllWidths X t = Map.empty" for t
    using that by (simp add: fold_bufferRow_untracked)
  show ?thesis
  proof (intro conjI impI)
    assume a: "cwo = None \<and> getAllWidths X (snd (snd (fold (bufferRow X tk) rows ([], - 1, tr')))) = Map.empty"
    then have c: "cwo = None"
      and w: "getAllWidths X (snd (snd (fold (bufferRow X tk) rows ([], - 1, tr')))) = Map.empty"
      by simp_all
    show "generateSheetFormatPr X (Option.bind cwo cw_defaultColumnWidth) = []"
      by (simp add: c generateSheetFormatPr_def)
    show "generateColsXml X (fst (snd (fold (bufferRow X tk) rows ([], - 1, tr'))))
              (Option.bind cwo cw_defaultColumnWidth) (Option.bind cwo cw_columnWidths)
              (getAllWidths X (snd (snd (fold (bufferRow X tk) rows ([], - 1, tr'))))) = []"
      by (simp add: c w generateColsXml_nothing)
    show s: "slowPath X rows g cwo True tk tr' = fastPath X rows g cwo tr"
      unfolding c by (simp only: slowPath_no_options [OF w] fast)
    show "slowPath X rows g cwo True tk tr' = ?body"
      unfolding c by (rule slowPath_no_options [OF w])
    show "concat (prolog # slowPath X rows g cwo True tk tr') = concat (prolog # fastPath X rows g cwo tr)"
      by (simp only: s)
  next
    assume a: "cwo = None \<and> getAllWidths X tr' = Map.empty"
    then have c: "cwo = None" and w: "getAllWidths X tr' = Map.empty" by simp_all
    show "slowPath X rows g cwo True False tr' = fastPath X rows g cwo tr"
      unfolding c by (simp only: slowPath_no_options [OF untracked [OF w]] fast)
  next
    assume a: "Option.bind options opt_columnWidths = None \<and> getAllWidths X (newTracker X False) = Map.empty"
    then have c: "Option.bind options opt_columnWidths = None"
      and w: "getAllWidths X (newTracker X False) = Map.empty" by simp_all
    have "writeSheetXml X rows options
          = prolog # fastPath X rows (Option.bind options opt_getStringIndex) None (newTracker X False)"
      by (simp add: writeSheetXml_def Let_def c needsColsXml_def needsWidthTracking_def)
    then show "writeSheetXml X rows options
        = prolog # slowPath X rows (Option.bind options opt_getStringIndex) None True False (newTracker X False)"
      by (simp only: slowPath_no_options [OF untracked [OF w]] fast')
  next
    assume c: "cwo = None"
    have n: "needsColsXml cwo = False"
      by (simp add: c needsColsXml_def)
    have "fastPath X rows g cwo tr = slowPath X rows g cwo (needsColsXml cwo) tk tr'"
      by (rule fast_slow_general) (simp add: n)
    then show "slowPath X rows g cwo False tk tr' = fastPath X rows g cwo tr"
      by (simp only: n)
  qed
qed

theorem fast_slow_equivalence_witness:
  \<open>slowPath demo [demoRow, demoHoles] None None True False (False, Map.empty) =
     [''<sheetData>'',
      ''<row r="3" spans="1:4"><c r="A3" s="0" t="inlineStr"><is><t>Name</t></is></c><c r="B3" s="0"><v>42</v></c><c r="D3" s="0" t="b"><v>1</v></c></row>'',
      ''<row r="1" spans="1:1"></row>'',
      ''</sheetData></worksheet>'']
   \<and> slowPath demo [demoRow, demoHoles] None None True False (False, Map.empty)
       = fastPath demo [demoRow, demoHoles] None None (False, Map.empty)
   \<and> slowPath demo [demoHoles] None None True True (True, Map.empty)
       = fastPath demo [demoHoles] None None (False, Map.empty)
   \<and> writeSheetXml demo [demoRow, demoHoles] None
       = prolog # slowPath demo [demoRow, demoHoles] None None True False (False, Map.empty)\<close>
proof -
  have h1: "(None :: int SheetColumnWidthOptions option) = None
      \<and> getAllWidths demo (snd (snd (fold (bufferRow demo False) [demoRow, demoHoles] ([], - 1, (False, Map.empty))))) = Map.empty"
    by (simp add: bufferRow_def demo_def)
  have e1: \<open>slowPath demo [demoRow, demoHoles] None None True False (False, Map.empty)
       = fastPath demo [demoRow, demoHoles] None None (False, Map.empty)\<close>
    using fast_slow_equivalence [where cwo = None and X = demo and rows = "[demoRow, demoHoles]"
        and tk = False and tr' = "(False, Map.empty)" and g = None and tr = "(False, Map.empty)"] h1
    by blast
  have v1: \<open>fastPath demo [demoRow, demoHoles] None None (False, Map.empty) =
     [''<sheetData>'',
      ''<row r="3" spans="1:4"><c r="A3" s="0" t="inlineStr"><is><t>Name</t></is></c><c r="B3" s="0"><v>42</v></c><c r="D3" s="0" t="b"><v>1</v></c></row>'',
      ''<row r="1" spans="1:1"></row>'',
      ''</sheetData></worksheet>'']\<close>
    by code_simp
  have h2: "(None :: int SheetColumnWidthOptions option) = None
      \<and> getAllWidths demo (snd (snd (fold (bufferRow demo True) [demoHoles] ([], - 1, (True, Map.empty))))) = Map.empty"
    by (simp add: bufferRow_def demo_def demoHoles_def)
  have e2: \<open>slowPath demo [demoHoles] None None True True (True, Map.empty)
       = fastPath demo [demoHoles] None None (False, Map.empty)\<close>
    using fast_slow_equivalence [where cwo = None and X = demo and rows = "[demoHoles]"
        and tk = True and tr' = "(True, Map.empty)" and g = None and tr = "(False, Map.empty)"] h2
    by blast
  have h3: "Option.bind (None :: int WriteSheetXmlOptions option) opt_columnWidths = None
      \<and> getAllWidths demo (newTracker demo False) = Map.empty"
    by (simp add: demo_def)
  have e3': "writeSheetXml demo [demoRow, demoHoles] None
       = prolog # slowPath demo [demoRow, demoHoles] None None True False (False, Map.empty)"
    using fast_slow_equivalence [where X = demo and rows = "[demoRow, demoHoles]" and options = None] h3
    by (simp add: demo_def)
  show ?thesis
    using e1 v1 e2 e3' by simp
qed

text \<open>
  C2. When the present cells of a row are at exactly the indices \<open>is\<close> (strictly increasing,
  at least one), \<open>serializeRow\<close> gives a row element whose spans attribute runs from the
  first of them plus one to the last of them plus one, and whose children are the XML of the
  cells at those indices, in order: holes contribute no cell and do not shrink the span.
\<close>

theorem serializeRow_spans:
  assumes \<open>sorted_wrt (<) is\<close> and \<open>is \<noteq> []\<close>
    and \<open>set is = {i. i < length (row_cells row) \<and> isPresent (row_cells row ! i)}\<close>
  shows \<open>fst (serializeRow X row getStringIndex widthTracker) =
     ''<row r="'' @ showInt (case row_rowIndex row of None \<Rightarrow> 1 | Some r \<Rightarrow> r)
       @ ''" spans="'' @ showInt (int (hd is) + 1) @ '':'' @ showInt (int (last is) + 1) @ ''">''
       @ concat (map (slotXml X (case row_rowIndex row of None \<Rightarrow> 1 | Some r \<Rightarrow> r) getStringIndex (row_cells row)) is)
       @ ''</row>''\<close>
proof -
  let ?cs = "row_cells row"
  have hd_in: "hd is \<in> set is" and last_in: "last is \<in> set is"
    using assms(2) by simp_all
  have hd_ok: "hd is < length ?cs" "isPresent (?cs ! hd is)"
    using hd_in assms(3) by auto
  have last_ok: "last is < length ?cs" "isPresent (?cs ! last is)"
    using last_in assms(3) by auto
  have before: "\<forall>j<hd is. \<not> isPresent (?cs ! j)"
  proof (intro allI impI notI)
    fix j assume j: "j < hd is" and "isPresent (?cs ! j)"
    then have "j \<in> set is" using hd_ok(1) assms(3) by auto
    then have "hd is \<le> j" by (rule sorted_hd_least [OF assms(1)])
    then show False using j by simp
  qed
  have after: "\<forall>j. last is < j \<and> j < length ?cs \<longrightarrow> \<not> isPresent (?cs ! j)"
  proof (intro allI impI notI)
    fix j assume j: "last is < j \<and> j < length ?cs" and "isPresent (?cs ! j)"
    then have "j \<in> set is" using assms(3) by auto
    then have "j \<le> last is" by (rule sorted_last_greatest [OF assms(1)])
    then show False using j by simp
  qed
  have first: "findIndex isPresent ?cs = int (hd is)"
    using findIndexFrom_first [OF hd_ok before, of 0] by (simp add: findIndex_def)
  have last: "lastColLoop ?cs (length ?cs) fc = int (last is) + 1" for fc
    by (rule lastColLoop_last [OF last_ok after])
  have "is": "is = filter (\<lambda>i. isPresent (?cs ! i)) [0..<length ?cs]"
    by (rule present_indices [OF assms(1) assms(3)])
  have holes: "\<forall>j \<in> set [0..<length ?cs]. \<not> isPresent (?cs ! j) \<longrightarrow> slotXml X r getStringIndex ?cs j = []" for r
    by (auto simp: slotXml_def split: slot.splits)
  have cellsXml: "concat (map (slotXml X r getStringIndex ?cs) [0..<length ?cs])
                  = concat (map (slotXml X r getStringIndex ?cs) is)" for r
    using concat_map_filter [OF holes] "is" by simp
  show ?thesis
    by (simp add: serializeRow_fst Let_def first last cellsXml)
qed

theorem serializeRow_spans_witness:
  \<open>sorted_wrt (<) [0, 1, 3 :: nat]
   \<and> set [0, 1, 3 :: nat] = {i. i < length (row_cells demoRow) \<and> isPresent (row_cells demoRow ! i)}
   \<and> fst (serializeRow demo demoRow None None) =
       ''<row r="3" spans="1:4"><c r="A3" s="0" t="inlineStr"><is><t>Name</t></is></c><c r="B3" s="0"><v>42</v></c><c r="D3" s="0" t="b"><v>1</v></c></row>''\<close>
proof -
  have h1: "sorted_wrt (<) [0, 1, 3 :: nat]" by simp
  have h2: "[0, 1, 3 :: nat] \<noteq> []" by simp
  have h3: "set [0, 1, 3 :: nat] = {i. i < length (row_cells demoRow) \<and> isPresent (row_cells demoRow ! i)}"
    by (auto simp: demoRow_def nth_Cons' less_Suc_eq numeral_eq_Suc split: if_splits)
  have \<open>fst (serializeRow demo demoRow None None) =
     ''<row r="'' @ showInt (case row_rowIndex demoRow of None \<Rightarrow> 1 | Some r \<Rightarrow> r)
       @ ''" spans="'' @ showInt (int (hd [0, 1, 3 :: nat]) + 1) @ '':'' @ showInt (int (last [0, 1, 3 :: nat]) + 1) @ ''">''
       @ concat (map (slotXml demo (case row_rowIndex demoRow of None \<Rightarrow> 1 | Some r \<Rightarrow> r) None (row_cells demoRow)) [0, 1, 3])
       @ ''</row>''\<close>
    by (rule serializeRow_spans [OF h1 h2 h3])
  also have \<open>\<dots> = ''<row r="3" spans="1:4"><c r="A3" s="0" t="inlineStr"><is><t>Name</t></is></c><c r="B3" s="0"><v>42</v></c><c r="D3" s="0" t="b"><v>1</v></c></row>''\<close>
    by code_simp
  finally show ?thesis using h1 h3 by simp
qed

text \<open>
  C3. The XML of a cell, by the tag of the resolved cell. A textual cell (tag \<open>s\<close>) with a
  shared-string resolver is a cell with \<open>t="s"\<close> whose value is the index the resolver
  returns; a textual cell with no resolver is an inline string holding the escaped text; a
  cell with the numeric tag \<open>n\<close> is a value cell with no \<open>t\<close> attribute; a cell with any
  other tag is a value cell whose \<open>t\<close> attribute is that tag.
\<close>

theorem serializeCell_by_tag:
  \<open>(cr_t (resolveCell X cell) = T_s \<longrightarrow>
       serializeCell X cell rowIndex colIndex (Some g) =
         ''<c r="'' @ columnIndexToLetter colIndex @ showInt rowIndex @ ''" s="0" t="s"><v>''
           @ numberToString X (g (cr_v (resolveCell X cell))) @ ''</v></c>'')
   \<and> (cr_t (resolveCell X cell) = T_s \<longrightarrow>
       serializeCell X cell rowIndex colIndex None =
         ''<c r="'' @ columnIndexToLetter colIndex @ showInt rowIndex @ ''" s="0" t="inlineStr"><is><t>''
           @ escapeXml X (cr_v (resolveCell X cell)) @ ''</t></is></c>'')
   \<and> (cr_t (resolveCell X cell) = T_n \<longrightarrow>
       serializeCell X cell rowIndex colIndex getStringIndex =
         ''<c r="'' @ columnIndexToLetter colIndex @ showInt rowIndex @ ''" s="0"><v>''
           @ valueToString X (cr_v (resolveCell X cell)) @ ''</v></c>'')
   \<and> (cr_t (resolveCell X cell) \<noteq> T_s \<and> cr_t (resolveCell X cell) \<noteq> T_n \<longrightarrow>
       serializeCell X cell rowIndex colIndex getStringIndex =
         ''<c r="'' @ columnIndexToLetter colIndex @ showInt rowIndex @ ''" s="0" t="''
           @ tagText (cr_t (resolveCell X cell)) @ ''"><v>''
           @ valueToString X (cr_v (resolveCell X cell)) @ ''</v></c>'')\<close>
  by (simp add: serializeCell_def getCellReference_def Let_def)

theorem serializeCell_by_tag_witness:
  \<open>serializeCell demo (CString ''a<b'') 3 27 (Some (\<lambda>v. 5)) = ''<c r="AB3" s="0" t="s"><v>5</v></c>''
   \<and> serializeCell demo (CString ''a<b'') 3 27 None = ''<c r="AB3" s="0" t="inlineStr"><is><t>a&lt;b</t></is></c>''
   \<and> serializeCell demo (CNumber 42) 3 2 None = ''<c r="C3" s="0"><v>42</v></c>''
   \<and> serializeCell demo (CBoolean True) 3 3 (Some (\<lambda>v. 5)) = ''<c r="D3" s="0" t="b"><v>1</v></c>''\<close>
proof -
  have t1: "cr_t (resolveCell demo (CString ''a<b'')) = T_s"
    and t2: "cr_t (resolveCell demo (CNumber 42)) = T_n"
    and t3: "cr_t (resolveCell demo (CBoolean True)) \<noteq> T_s \<and> cr_t (resolveCell demo (CBoolean True)) \<noteq> T_n"
    by (simp_all add: demo_def)
  have c: "columnIndexToLetter 27 = ''AB''" "columnIndexToLetter 2 = ''C''" "columnIndexToLetter 3 = ''D''"
    "showInt 3 = ''3''" "showInt 5 = ''5''" "showInt 42 = ''42''"
    "demoEscapeText ''a<b'' = ''a&lt;b''"
    by code_simp+
  have \<open>serializeCell demo (CString ''a<b'') 3 27 (Some (\<lambda>v. 5)) = ''<c r="AB3" s="0" t="s"><v>5</v></c>''\<close>
    using serializeCell_by_tag [of demo "CString ''a<b''" 3 27 "\<lambda>v. 5"] t1
    by (simp add: c demo_def)
  moreover have \<open>serializeCell demo (CString ''a<b'') 3 27 None = ''<c r="AB3" s="0" t="inlineStr"><is><t>a&lt;b</t></is></c>''\<close>
    using serializeCell_by_tag [of demo "CString ''a<b''" 3 27] t1
    by (simp add: c demo_def)
  moreover have \<open>serializeCell demo (CNumber 42) 3 2 None = ''<c r="C3" s="0"><v>42</v></c>''\<close>
    using serializeCell_by_tag [of demo "CNumber 42" 3 2 _ None] t2
    by (simp add: c demo_def)
  moreover have \<open>serializeCell demo (CBoolean True) 3 3 (Some (\<lambda>v. 5)) = ''<c r="D3" s="0" t="b"><v>1</v></c>''\<close>
    using serializeCell_by_tag [of demo "CBoolean True" 3 3 _ "Some (\<lambda>v. 5)"] t3
    by (simp add: c demo_def)
  ultimately show ?thesis by simp
qed

text \<open>
  C4. \<open>columnIndexToLetter\<close> is an injection from 0-based column indices to letter
  strings: the string of column \<open>n\<close> consists of the letters A to Z and is the bijective
  base-26 numeral (A = 1, ..., Z = 26) of \<open>n + 1\<close>; every non-empty string of such letters
  is the name of a column; and columns 0, 25, 26, 701, 702 are named A, Z, AA, ZZ, AAA.
\<close>

theorem columnIndexToLetter_bijective26:
  "inj columnIndexToLetter
   \<and> (\<forall>n. bijective26 (columnIndexToLetter n) = n + 1
          \<and> (\<forall>ch \<in> set (columnIndexToLetter n). isUpperLetter ch))
   \<and> bij_betw columnIndexToLetter UNIV {s. s \<noteq> [] \<and> (\<forall>ch \<in> set s. isUpperLetter ch)}
   \<and> columnIndexToLetter 0 = ''A''
   \<and> columnIndexToLetter 25 = ''Z''
   \<and> columnIndexToLetter 26 = ''AA''
   \<and> columnIndexToLetter 701 = ''ZZ''
   \<and> columnIndexToLetter 702 = ''AAA''"
proof -
  have val: "bijective26 (columnIndexToLetter n) = n + 1" for n
    by (simp add: columnIndexToLetter_def bijective26_letterLoop)
  have up: "\<forall>ch \<in> set (columnIndexToLetter n). isUpperLetter ch" for n
    by (simp add: columnIndexToLetter_def letterLoop_upper)
  have inj: "inj columnIndexToLetter"
  proof (rule injI)
    fix x y assume "columnIndexToLetter x = columnIndexToLetter y"
    then have "bijective26 (columnIndexToLetter x) = bijective26 (columnIndexToLetter y)"
      by simp
    then show "x = y" by (simp add: val)
  qed
  have ne: "columnIndexToLetter n \<noteq> []" for n
    using val [of n] by (auto simp: bijective26_def)
  have surj: "\<exists>n. columnIndexToLetter n = s" if "s \<noteq> []" "\<forall>ch \<in> set s. isUpperLetter ch" for s
  proof -
    have "0 < bijective26 s" using that by (rule bijective26_pos)
    then have "columnIndexToLetter (bijective26 s - 1) = s"
      using letterLoop_bijective26 [OF that(2)] by (simp add: columnIndexToLetter_def)
    then show ?thesis ..
  qed
  have bij: "bij_betw columnIndexToLetter UNIV {s. s \<noteq> [] \<and> (\<forall>ch \<in> set s. isUpperLetter ch)}"
    unfolding bij_betw_def
  proof
    show "inj columnIndexToLetter" by (rule inj)
    show "range columnIndexToLetter = {s. s \<noteq> [] \<and> (\<forall>ch \<in> set s. isUpperLetter ch)}"
      using ne up surj by (auto simp: image_iff) metis
  qed
  have e0: "columnIndexToLetter 0 = ''A''" by code_simp
  have e25: "columnIndexToLetter 25 = ''Z''" by code_simp
  have e26: "columnIndexToLetter 26 = ''AA''" by code_simp
  have e701: "columnIndexToLetter 701 = ''ZZ''" by code_simp
  have e702: "columnIndexToLetter 702 = ''AAA''" by code_simp
  show ?thesis
    using inj val up bij e0 e25 e26 e701 e702 by blast
qed

theorem columnIndexToLetter_bijective26_witness:
  "columnIndexToLetter 27 \<noteq> columnIndexToLetter 1
   \<and> bijective26 (columnIndexToLetter 27) = 28
   \<and> isUpperLetter (CHR ''B'') \<and> columnIndexToLetter 27 = ''AB''"
proof -
  have e: "columnIndexToLetter 27 = ''AB''" by code_simp
  have i: "inj columnIndexToLetter"
    and v: "bijective26 (columnIndexToLetter 27) = 27 + 1"
    and u: "\<forall>ch \<in> set (columnIndexToLetter 27). isUpperLetter ch"
    using columnIndexToLetter_bijective26 by blast+
  have "columnIndexToLetter 27 \<noteq> columnIndexToLetter 1"
    using injD [OF i, of 27 1] by auto
  moreover have "isUpperLetter (CHR ''B'')"
    using u by (simp add: e)
  ultimately show ?thesis
    using v e by simp
qed

text \<open>
  C5 (amended). With the columns 0 to 3 observed (\<open>maxColumnIndex\<close> at least 3) and the list
  made, in this order, of a definition with an explicit width \<open>w\<close> for column index 2 and
  a definition with autoDetect on the range [0,3], for every tracked-width map and default
  width: column 2 is declared with \<open>w\<close>; each of the columns 0, 1, 3 is declared with its
  tracked width when it has one, and otherwise with the default width when one is
  configured; the columns after 3 get their tracked or else the default width. For a
  per-column-index definition: on a column not yet assigned it adds the declaration with
  its resolved width; on a column already assigned it changes nothing, so a later
  per-column-index duplicate can be removed from the list without changing the output; and
  when it resolves to no width it changes nothing, so the output is that of the list
  without it and the column goes through the handling of the remaining columns. The same
  holds for a range definition that yields no width: autoDetect with no tracked width in
  the clamped range, or neither autoDetect nor a width.
\<close>

theorem generateColsXml_precedence:
  \<open>(3 \<le> m \<and> def_columnIndex d1 = Some 2 \<and> def_width d1 = Some w
      \<and> def_columnIndex d2 = None \<and> def_columnRange d2 = Some \<lparr>range_from = 0, range_to = 3\<rparr>
      \<and> def_autoDetect d2 \<longrightarrow>
        generateColsXml X m dw (Some [d1, d2]) tw =
          colsBlock ([colElement X 3 3 w]
                     @ concat (map (trackedElement X tw) [0, 1, 3])
                     @ concat (map (untrackedDefault X dw tw) [0, 1, 3])
                     @ concat (map (fallbackElement X dw tw) [4..m])))
   \<and> (def_columnIndex e = Some c \<and> c \<le> m \<and> c \<notin> P \<and> resolvedWidth tw e c = Some x \<longrightarrow>
        processDef X m tw e (els, P) = (els @ [colElement X (c + 1) (c + 1) x], insert c P))
   \<and> (def_columnIndex e = Some c \<and> c \<in> P \<longrightarrow> processDef X m tw e (els, P) = (els, P))
   \<and> (def_columnIndex e1 = Some c \<and> c \<le> m \<and> resolvedWidth tw e1 c = Some x \<and> def_columnIndex e2 = Some c \<longrightarrow>
        generateColsXml X m dw (Some (xs @ e1 # ys @ e2 # zs)) tw
        = generateColsXml X m dw (Some (xs @ e1 # ys @ zs)) tw)
   \<and> (def_columnIndex e = Some c \<and> resolvedWidth tw e c = None \<longrightarrow>
        processDef X m tw e st = st
        \<and> generateColsXml X m dw (Some (xs @ e # ys)) tw = generateColsXml X m dw (Some (xs @ ys)) tw)
   \<and> (def_columnIndex e = None \<and> def_columnRange e = Some r
      \<and> (if def_autoDetect e
          then \<forall>i \<in> {max 0 (range_from r)..min m (range_to r)}. tw i = None
          else def_width e = None) \<longrightarrow>
        processDef X m tw e st = st
        \<and> generateColsXml X m dw (Some (xs @ e # ys)) tw = generateColsXml X m dw (Some (xs @ ys)) tw)\<close>
proof (intro conjI impI)
  assume a: \<open>3 \<le> m \<and> def_columnIndex d1 = Some 2 \<and> def_width d1 = Some w
      \<and> def_columnIndex d2 = None \<and> def_columnRange d2 = Some \<lparr>range_from = 0, range_to = 3\<rparr>
      \<and> def_autoDetect d2\<close>
  then have "generateColElements X m dw (Some [d1, d2]) tw =
           [colElement X 3 3 w]
           @ concat (map (trackedElement X tw) [0, 1, 3])
           @ concat (map (untrackedDefault X dw tw) [0, 1, 3])
           @ concat (map (fallbackElement X dw tw) [4..m])"
    by (intro explicit_then_range_elements) simp_all
  then show "generateColsXml X m dw (Some [d1, d2]) tw =
          colsBlock ([colElement X 3 3 w]
                     @ concat (map (trackedElement X tw) [0, 1, 3])
                     @ concat (map (untrackedDefault X dw tw) [0, 1, 3])
                     @ concat (map (fallbackElement X dw tw) [4..m]))"
    using a by (simp add: generateColsXml_block)
next
  assume "def_columnIndex e = Some c \<and> c \<le> m \<and> c \<notin> P \<and> resolvedWidth tw e c = Some x"
  then show "processDef X m tw e (els, P) = (els @ [colElement X (c + 1) (c + 1) x], insert c P)"
    by (simp add: processDef_index_first)
next
  assume "def_columnIndex e = Some c \<and> c \<in> P"
  then show "processDef X m tw e (els, P) = (els, P)"
    by (simp add: processDef_index_done)
next
  assume "def_columnIndex e1 = Some c \<and> c \<le> m \<and> resolvedWidth tw e1 c = Some x \<and> def_columnIndex e2 = Some c"
  then have "generateColElements X m dw (Some (xs @ e1 # ys @ e2 # zs)) tw
             = generateColElements X m dw (Some (xs @ e1 # ys @ zs)) tw"
    by (intro generate_duplicate [where c = c and x = x]) simp_all
  then show "generateColsXml X m dw (Some (xs @ e1 # ys @ e2 # zs)) tw
        = generateColsXml X m dw (Some (xs @ e1 # ys @ zs)) tw"
    by (rule generateColsXml_cong)
next
  assume a: "def_columnIndex e = Some c \<and> resolvedWidth tw e c = None"
  then show "processDef X m tw e st = st"
    by (simp add: processDef_index_nowidth)
next
  assume a: "def_columnIndex e = Some c \<and> resolvedWidth tw e c = None"
  then have "processDef X m tw e st = st" for st
    by (simp add: processDef_index_nowidth)
  then have "generateColElements X m dw (Some (xs @ e # ys)) tw = generateColElements X m dw (Some (xs @ ys)) tw"
    by (rule generate_without)
  then show "generateColsXml X m dw (Some (xs @ e # ys)) tw = generateColsXml X m dw (Some (xs @ ys)) tw"
    by (rule generateColsXml_cong)
next
  assume a: "def_columnIndex e = None \<and> def_columnRange e = Some r
      \<and> (if def_autoDetect e
          then \<forall>i \<in> {max 0 (range_from r)..min m (range_to r)}. tw i = None
          else def_width e = None)"
  then show "processDef X m tw e st = st"
    by (intro processDef_range_nothing [where r = r]) simp_all
next
  assume a: "def_columnIndex e = None \<and> def_columnRange e = Some r
      \<and> (if def_autoDetect e
          then \<forall>i \<in> {max 0 (range_from r)..min m (range_to r)}. tw i = None
          else def_width e = None)"
  then have "processDef X m tw e st = st" for st
    by (intro processDef_range_nothing [where r = r]) simp_all
  then have "generateColElements X m dw (Some (xs @ e # ys)) tw = generateColElements X m dw (Some (xs @ ys)) tw"
    by (rule generate_without)
  then show "generateColsXml X m dw (Some (xs @ e # ys)) tw = generateColsXml X m dw (Some (xs @ ys)) tw"
    by (rule generateColsXml_cong)
qed

theorem generateColsXml_precedence_witness:
  \<open>generateColsXml demo 3 (Some 9) (Some [indexDef 2 (Some 20) False, rangeDef 0 3 None True]) [0 \<mapsto> 4, 2 \<mapsto> 7] =
     ''<cols>'' @ [CHR 0x0A]
     @ ''    <col min="3" max="3" width="20" customWidth="1"/>'' @ [CHR 0x0A]
     @ ''    <col min="1" max="1" width="4" customWidth="1"/>'' @ [CHR 0x0A]
     @ ''    <col min="2" max="2" width="9" customWidth="1"/>'' @ [CHR 0x0A]
     @ ''    <col min="4" max="4" width="9" customWidth="1"/>'' @ [CHR 0x0A]
     @ ''  </cols>''
   \<and> processDef demo 3 Map.empty (indexDef 1 (Some 5) False) ([], {})
       = ([''    <col min="2" max="2" width="5" customWidth="1"/>''], {1})
   \<and> processDef demo 3 Map.empty (indexDef 1 (Some 6) False) ([], {1}) = ([], {1})
   \<and> generateColsXml demo 3 None (Some [indexDef 1 (Some 5) False, indexDef 1 (Some 6) False]) Map.empty
       = generateColsXml demo 3 None (Some [indexDef 1 (Some 5) False]) Map.empty
   \<and> generateColsXml demo 3 None (Some [indexDef 1 None True]) Map.empty
       = generateColsXml demo 3 None (Some []) Map.empty
   \<and> generateColsXml demo 3 None (Some [rangeDef 0 3 (Some 5) True]) Map.empty
       = generateColsXml demo 3 None (Some []) Map.empty\<close>
proof -
  let ?d1 = "indexDef 2 (Some 20) False" and ?d2 = "rangeDef 0 3 None True"
  let ?tw = "[0 \<mapsto> 4, 2 \<mapsto> (7::int)]"
  have h1: "3 \<le> (3::int) \<and> def_columnIndex ?d1 = Some 2 \<and> def_width ?d1 = Some 20
      \<and> def_columnIndex ?d2 = None \<and> def_columnRange ?d2 = Some \<lparr>range_from = 0, range_to = 3\<rparr>
      \<and> def_autoDetect ?d2"
    by (simp add: indexDef_def rangeDef_def)
  have e1: "generateColsXml demo 3 (Some 9) (Some [?d1, ?d2]) ?tw =
          colsBlock ([colElement demo 3 3 20]
                     @ concat (map (trackedElement demo ?tw) [0, 1, 3])
                     @ concat (map (untrackedDefault demo (Some 9) ?tw) [0, 1, 3])
                     @ concat (map (fallbackElement demo (Some 9) ?tw) [4..3]))"
    using generateColsXml_precedence [of 3 ?d1 20 ?d2 demo "Some 9" ?tw] h1 by blast
  have v1: \<open>colsBlock ([colElement demo 3 3 20]
                     @ concat (map (trackedElement demo ?tw) [0, 1, 3])
                     @ concat (map (untrackedDefault demo (Some 9) ?tw) [0, 1, 3])
                     @ concat (map (fallbackElement demo (Some 9) ?tw) [4..3])) =
     ''<cols>'' @ [CHR 0x0A]
     @ ''    <col min="3" max="3" width="20" customWidth="1"/>'' @ [CHR 0x0A]
     @ ''    <col min="1" max="1" width="4" customWidth="1"/>'' @ [CHR 0x0A]
     @ ''    <col min="2" max="2" width="9" customWidth="1"/>'' @ [CHR 0x0A]
     @ ''    <col min="4" max="4" width="9" customWidth="1"/>'' @ [CHR 0x0A]
     @ ''  </cols>''\<close>
    by code_simp
  have h2: "def_columnIndex (indexDef 1 (Some 5) False) = Some 1 \<and> (1::int) \<le> 3 \<and> (1::int) \<notin> {}
            \<and> resolvedWidth Map.empty (indexDef 1 (Some 5) False) 1 = Some 5"
    by (simp add: indexDef_def resolvedWidth_def)
  have e2: "processDef demo 3 Map.empty (indexDef 1 (Some 5) False) ([], {})
            = ([] @ [colElement demo (1 + 1) (1 + 1) 5], insert 1 {})"
    using generateColsXml_precedence [of 3 _ _ _ demo _ Map.empty "indexDef 1 (Some 5) False" 1 "{}" 5 "[]"] h2
    by blast
  have v2: \<open>colElement demo (1 + 1) (1 + 1) 5 = ''    <col min="2" max="2" width="5" customWidth="1"/>''\<close>
    by code_simp
  have h3: "def_columnIndex (indexDef 1 (Some 6) False) = Some 1 \<and> (1::int) \<in> {1}"
    by (simp add: indexDef_def)
  have e3: "processDef demo 3 Map.empty (indexDef 1 (Some 6) False) ([], {1}) = ([], {1})"
    using generateColsXml_precedence [of 3 _ _ _ demo _ Map.empty "indexDef 1 (Some 6) False" 1 "{1}" _ "[]"] h3
    by blast
  have h4: "def_columnIndex (indexDef 1 (Some 5) False) = Some 1 \<and> (1::int) \<le> 3
            \<and> resolvedWidth Map.empty (indexDef 1 (Some 5) False) 1 = Some 5
            \<and> def_columnIndex (indexDef 1 (Some 6) False) = Some 1"
    by (simp add: indexDef_def resolvedWidth_def)
  have e4: "generateColsXml demo 3 None (Some ([] @ indexDef 1 (Some 5) False # [] @ indexDef 1 (Some 6) False # [])) Map.empty
       = generateColsXml demo 3 None (Some ([] @ indexDef 1 (Some 5) False # [] @ [])) Map.empty"
    using generateColsXml_precedence [of 3 _ _ _ demo None Map.empty _ 1 _ 5 _
        "indexDef 1 (Some 5) False" "indexDef 1 (Some 6) False" "[]" "[]" "[]"] h4
    by blast
  have h5: "def_columnIndex (indexDef 1 None True) = Some 1
            \<and> resolvedWidth Map.empty (indexDef 1 None True) 1 = (None :: int option)"
    by (simp add: indexDef_def resolvedWidth_def)
  have e5: "generateColsXml demo 3 None (Some ([] @ indexDef 1 None True # [])) Map.empty
       = generateColsXml demo 3 None (Some ([] @ [])) Map.empty"
    using generateColsXml_precedence [of 3 _ _ _ demo None Map.empty "indexDef 1 None True" 1 _ _ _ _ _ "[]" "[]" _ _] h5
    by blast
  have h6: "def_columnIndex (rangeDef 0 3 (Some 5) True) = None
            \<and> def_columnRange (rangeDef 0 3 (Some 5) True) = Some \<lparr>range_from = 0, range_to = 3\<rparr>
            \<and> (if def_autoDetect (rangeDef 0 3 (Some 5) True)
                then \<forall>i \<in> {max 0 (range_from \<lparr>range_from = 0, range_to = 3\<rparr>)
                              ..min 3 (range_to \<lparr>range_from = 0, range_to = 3\<rparr>)}.
                       (Map.empty :: int \<rightharpoonup> int) i = None
                else def_width (rangeDef 0 3 (Some 5) True) = None)"
    by (simp add: rangeDef_def)
  have e6: "generateColsXml demo 3 None (Some ([] @ rangeDef 0 3 (Some 5) True # [])) Map.empty
       = generateColsXml demo 3 None (Some ([] @ [])) Map.empty"
    using generateColsXml_precedence [where m = 3 and X = demo and dw = None and tw = Map.empty
        and e = "rangeDef 0 3 (Some 5) True" and xs = "[]" and ys = "[]"
        and r = "\<lparr>range_from = 0, range_to = 3\<rparr>"] h6
    by blast
  show ?thesis
    using e1 v1 e2 v2 e3 e4 e5 e6 by simp
qed

text \<open>
  The claim as first stated does not fix the order of the two definitions, nor that the
  columns were observed. With the autoDetect range first and a tracked width 7 for column
  2, the range assigns column 2 and the explicit width 20 is not used. With only columns 0
  and 1 observed, the definition for column 2 is beyond the maximum column index and
  nothing is declared for it.
\<close>

theorem generateColsXml_precedence_counterexample:
  \<open>generateColsXml demo 3 None (Some [rangeDef 0 3 None True, indexDef 2 (Some 20) False]) [2 \<mapsto> 7] =
     ''<cols>'' @ [CHR 0x0A]
     @ ''    <col min="3" max="3" width="7" customWidth="1"/>'' @ [CHR 0x0A]
     @ ''  </cols>''
   \<and> generateColsXml demo 3 None (Some [rangeDef 0 3 None True, indexDef 2 (Some 20) False]) [2 \<mapsto> 7]
       \<noteq> colsBlock [colElement demo 3 3 20]
   \<and> generateColsXml demo 1 None (Some [indexDef 2 (Some 20) False, rangeDef 0 3 None True]) Map.empty = []\<close>
  by code_simp

text \<open>
  C6. With a default width and no other source of widths, the claim expects exactly one
  declaration spanning the first through the last observed column. The loop over the
  remaining columns has already given every column its own declaration with the default
  width, so the list is never empty when the last test is reached
  (\<open>single_default_declaration_unreachable\<close>, \<open>default_only_per_column\<close>): for two
  observed columns the output has two declarations, not the one spanning 1 to 2. The same
  through \<open>writeSheetXml\<close>, for one row of two null cells with autoDetectColumnWidth and a
  default width of 10.
\<close>

theorem generateColsXml_default_only:
  \<open>generateColsXml demo 1 (Some 10) None Map.empty =
     ''<cols>'' @ [CHR 0x0A]
     @ ''    <col min="1" max="1" width="10" customWidth="1"/>'' @ [CHR 0x0A]
     @ ''    <col min="2" max="2" width="10" customWidth="1"/>'' @ [CHR 0x0A]
     @ ''  </cols>''
   \<and> generateColsXml demo 1 (Some 10) None Map.empty \<noteq> colsBlock [colElement demo 1 2 10]
   \<and> writeSheetXml demo [demoHoles] (Some demoAutoDetectWithDefault) =
     [prolog,
      ''    <sheetFormatPr defaultColWidth="10"/>'',
      ''<cols>'' @ [CHR 0x0A]
        @ ''    <col min="1" max="1" width="10" customWidth="1"/>'' @ [CHR 0x0A]
        @ ''    <col min="2" max="2" width="10" customWidth="1"/>'' @ [CHR 0x0A]
        @ ''  </cols>'',
      ''<sheetData>'',
      ''<row r="1" spans="1:1"></row>'',
      ''</sheetData></worksheet>'']\<close>
  by code_simp

text \<open>
  C7. A per-column-index definition with a negative index and an explicit width is not
  skipped: the test \<^verbatim>\<open>colIndex <= maxColumnIndex\<close> has no lower bound, so for index -1 a
  declaration with \<open>min="0"\<close> is written, while the list without the definition gives no
  cols element. (A range is clamped at 0, and a range with \<open>from > to\<close> has no effect:
  \<open>processDef_reversed_range\<close>.) The same through \<open>writeSheetXml\<close>.
\<close>

theorem generateColsXml_negative_index:
  \<open>generateColsXml demo 0 None (Some [indexDef (- 1) (Some 5) False]) Map.empty =
     ''<cols>'' @ [CHR 0x0A] @ ''    <col min="0" max="0" width="5" customWidth="1"/>'' @ [CHR 0x0A] @ ''  </cols>''
   \<and> generateColsXml demo 0 None (Some []) Map.empty = []
   \<and> writeSheetXml demo [\<lparr>row_cells = [Cell (CNumber 1)], row_rowIndex = None\<rparr>] (Some demoNegativeIndex) =
     [prolog,
      ''<cols>'' @ [CHR 0x0A] @ ''    <col min="0" max="0" width="5" customWidth="1"/>'' @ [CHR 0x0A] @ ''  </cols>'',
      ''<sheetData>'',
      ''<row r="1" spans="1:1"><c r="A1" s="0"><v>1</v></c></row>'',
      ''</sheetData></worksheet>'']\<close>
  by code_simp

text \<open>
  C8. In both paths the fragments after the opening of sheetData are the XML of the rows,
  one fragment per row in the order of arrival, followed by the closing elements; what
  comes before is the prolog and at most two fragments, the sheetFormatPr and the cols
  element.
\<close>

theorem rows_in_arrival_order:
  \<open>fastPath X rows g cwo tr =
       (case Option.bind cwo cw_defaultColumnWidth of Some d \<Rightarrow> [generateSheetFormatPr X (Some d)] | None \<Rightarrow> [])
       @ ''<sheetData>'' # map (\<lambda>row. fst (serializeRow X row g None)) rows @ [''</sheetData></worksheet>'']
   \<and> (\<exists>m tw. slowPath X rows g cwo nc tk tr =
       (if generateSheetFormatPr X (Option.bind cwo cw_defaultColumnWidth) \<noteq> []
        then [generateSheetFormatPr X (Option.bind cwo cw_defaultColumnWidth)] else [])
       @ (if nc \<and> generateColsXml X m (Option.bind cwo cw_defaultColumnWidth) (Option.bind cwo cw_columnWidths) tw \<noteq> []
          then [generateColsXml X m (Option.bind cwo cw_defaultColumnWidth) (Option.bind cwo cw_columnWidths) tw] else [])
       @ ''<sheetData>'' # map (\<lambda>row. fst (serializeRow X row g None)) rows @ [''</sheetData></worksheet>''])
   \<and> (\<exists>pre. length pre \<le> 2 \<and>
        writeSheetXml X rows options =
          prolog # pre
          @ ''<sheetData>'' # map (\<lambda>row. fst (serializeRow X row (Option.bind options opt_getStringIndex) None)) rows
          @ [''</sheetData></worksheet>''])\<close>
proof (intro conjI)
  show \<open>fastPath X rows g cwo tr =
       (case Option.bind cwo cw_defaultColumnWidth of Some d \<Rightarrow> [generateSheetFormatPr X (Some d)] | None \<Rightarrow> [])
       @ ''<sheetData>'' # map (\<lambda>row. fst (serializeRow X row g None)) rows @ [''</sheetData></worksheet>'']\<close>
    by (rule fastPath_rows)
  show \<open>\<exists>m tw. slowPath X rows g cwo nc tk tr =
       (if generateSheetFormatPr X (Option.bind cwo cw_defaultColumnWidth) \<noteq> []
        then [generateSheetFormatPr X (Option.bind cwo cw_defaultColumnWidth)] else [])
       @ (if nc \<and> generateColsXml X m (Option.bind cwo cw_defaultColumnWidth) (Option.bind cwo cw_columnWidths) tw \<noteq> []
          then [generateColsXml X m (Option.bind cwo cw_defaultColumnWidth) (Option.bind cwo cw_columnWidths) tw] else [])
       @ ''<sheetData>'' # map (\<lambda>row. fst (serializeRow X row g None)) rows @ [''</sheetData></worksheet>'']\<close>
    by (rule slowPath_rows)
  let ?g = "Option.bind options opt_getStringIndex"
  let ?cwo = "Option.bind options opt_columnWidths"
  let ?body = \<open>''<sheetData>'' # map (\<lambda>row. fst (serializeRow X row ?g None)) rows @ [''</sheetData></worksheet>'']\<close>
  show \<open>\<exists>pre. length pre \<le> 2 \<and> writeSheetXml X rows options = prolog # pre @ ?body\<close>
  proof (cases "needsColsXml ?cwo")
    case False
    let ?pre = "case Option.bind ?cwo cw_defaultColumnWidth of Some d \<Rightarrow> [generateSheetFormatPr X (Some d)] | None \<Rightarrow> []"
    have "writeSheetXml X rows options = prolog # ?pre @ ?body"
      using False by (simp add: writeSheetXml_def Let_def fastPath_rows)
    moreover have "length ?pre \<le> 2"
      by (simp split: option.splits)
    ultimately show ?thesis by blast
  next
    case True
    obtain m tw where sp: "slowPath X rows ?g ?cwo True (needsWidthTracking ?cwo) (newTracker X (needsWidthTracking ?cwo)) =
       ((if generateSheetFormatPr X (Option.bind ?cwo cw_defaultColumnWidth) \<noteq> []
        then [generateSheetFormatPr X (Option.bind ?cwo cw_defaultColumnWidth)] else [])
       @ (if True \<and> generateColsXml X m (Option.bind ?cwo cw_defaultColumnWidth) (Option.bind ?cwo cw_columnWidths) tw \<noteq> []
          then [generateColsXml X m (Option.bind ?cwo cw_defaultColumnWidth) (Option.bind ?cwo cw_columnWidths) tw] else []))
       @ ?body"
      using slowPath_rows [of X rows ?g ?cwo True "needsWidthTracking ?cwo" "newTracker X (needsWidthTracking ?cwo)"]
      by auto
    let ?pre = "(if generateSheetFormatPr X (Option.bind ?cwo cw_defaultColumnWidth) \<noteq> []
        then [generateSheetFormatPr X (Option.bind ?cwo cw_defaultColumnWidth)] else [])
       @ (if True \<and> generateColsXml X m (Option.bind ?cwo cw_defaultColumnWidth) (Option.bind ?cwo cw_columnWidths) tw \<noteq> []
          then [generateColsXml X m (Option.bind ?cwo cw_defaultColumnWidth) (Option.bind ?cwo cw_columnWidths) tw] else [])"
    have "writeSheetXml X rows options = prolog # ?pre @ ?body"
      using True sp by (simp add: writeSheetXml_def Let_def)
    moreover have "length ?pre \<le> 2"
      by simp
    ultimately show ?thesis by blast
  qed
qed

text \<open>
  C9. A row with no present cell (an empty cells array, or only null and undefined slots)
  still gives a row element: its \<open>r\<close> is the row's index, 1 when absent, its spans attribute
  is \<open>1:1\<close>, and it has no children.
\<close>

theorem serializeRow_empty:
  assumes \<open>\<forall>c \<in> set (row_cells row). \<not> isPresent c\<close>
  shows \<open>fst (serializeRow X row getStringIndex widthTracker) =
     ''<row r="'' @ showInt (case row_rowIndex row of None \<Rightarrow> 1 | Some r \<Rightarrow> r) @ ''" spans="1:1"></row>''\<close>
proof -
  let ?cs = "row_cells row"
  have absent: "\<not> isPresent (?cs ! j)" if "j < length ?cs" for j
    using assms nth_mem [OF that] by blast
  have first: "findIndex isPresent ?cs = - 1"
    using findIndexFrom_none [of ?cs isPresent 0] assms by (simp add: findIndex_def)
  have last: "lastColLoop ?cs (length ?cs) fc = fc" for fc
    by (rule lastColLoop_none) (use absent in simp)
  have one: "showInt 1 = ''1''"
    by code_simp
  have holes: "\<forall>j \<in> set [0..<length ?cs]. slotXml X r getStringIndex ?cs j = []" for r
  proof
    fix j assume "j \<in> set [0..<length ?cs]"
    then have "\<not> isPresent (?cs ! j)" using absent by simp
    then show "slotXml X r getStringIndex ?cs j = []"
      by (cases "?cs ! j") (simp_all add: slotXml_def)
  qed
  have cellsXml: "concat (map (slotXml X r getStringIndex ?cs) [0..<length ?cs]) = []" for r
    using holes [of r] by simp
  show ?thesis
    by (simp add: serializeRow_fst Let_def first last cellsXml one)
qed

theorem serializeRow_empty_witness:
  \<open>fst (serializeRow demo demoHoles None None) = ''<row r="1" spans="1:1"></row>''
   \<and> fst (serializeRow demo \<lparr>row_cells = [], row_rowIndex = Some 7\<rparr> None None) = ''<row r="7" spans="1:1"></row>''\<close>
proof -
  have a: "\<forall>c \<in> set (row_cells demoHoles). \<not> isPresent c"
    by (simp add: demoHoles_def)
  have b: "\<forall>c \<in> set (row_cells \<lparr>row_cells = ([] :: demoCell slot list), row_rowIndex = Some 7\<rparr>). \<not> isPresent c"
    by simp
  have s1: "showInt 1 = ''1''" and s7: "showInt 7 = ''7''"
    by code_simp+
  show ?thesis
    using serializeRow_empty [OF a, of demo None None] serializeRow_empty [OF b, of demo None None]
    by (simp add: demoHoles_def s1 s7)
qed

text \<open>
  C10 (amended). A per-column-index definition whose index is greater than the maximum
  observed column index changes nothing, and the output is that of the list without it. A
  range definition with an explicit width and autoDetect not set adds one declaration for
  the intersection of [from, to] with [0, maxColumnIndex], and nothing when the
  intersection is empty.
\<close>

theorem generateColsXml_clamping:
  \<open>(def_columnIndex d = Some c \<and> m < c \<longrightarrow>
        processDef X m tw d st = st
        \<and> generateColsXml X m dw (Some (xs @ d # ys)) tw = generateColsXml X m dw (Some (xs @ ys)) tw)
   \<and> (def_columnIndex d = None \<and> def_columnRange d = Some r \<and> \<not> def_autoDetect d \<and> def_width d = Some w \<longrightarrow>
        processDef X m tw d (els, P) =
          (if max 0 (range_from r) \<le> min m (range_to r)
           then (els @ [colElement X (max 0 (range_from r) + 1) (min m (range_to r) + 1) w],
                 P \<union> {max 0 (range_from r)..min m (range_to r)})
           else (els, P))
        \<and> generateColsXml X m None (Some [d]) Map.empty =
          (if max 0 (range_from r) \<le> min m (range_to r)
           then colsBlock [colElement X (max 0 (range_from r) + 1) (min m (range_to r) + 1) w]
           else []))\<close>
proof (intro conjI impI)
  assume a: "def_columnIndex d = Some c \<and> m < c"
  then show "processDef X m tw d st = st"
    by (simp add: processDef_index_beyond)
next
  assume a: "def_columnIndex d = Some c \<and> m < c"
  then have "processDef X m tw d st = st" for st
    by (simp add: processDef_index_beyond)
  then have "generateColElements X m dw (Some (xs @ d # ys)) tw = generateColElements X m dw (Some (xs @ ys)) tw"
    by (rule generate_without)
  then show "generateColsXml X m dw (Some (xs @ d # ys)) tw = generateColsXml X m dw (Some (xs @ ys)) tw"
    by (rule generateColsXml_cong)
next
  assume a: "def_columnIndex d = None \<and> def_columnRange d = Some r \<and> \<not> def_autoDetect d \<and> def_width d = Some w"
  then show "processDef X m tw d (els, P) =
          (if max 0 (range_from r) \<le> min m (range_to r)
           then (els @ [colElement X (max 0 (range_from r) + 1) (min m (range_to r) + 1) w],
                 P \<union> {max 0 (range_from r)..min m (range_to r)})
           else (els, P))"
    by (intro processDef_range_width) simp_all
next
  assume a: "def_columnIndex d = None \<and> def_columnRange d = Some r \<and> \<not> def_autoDetect d \<and> def_width d = Some w"
  then have p: "processDef X m Map.empty d ([], {}) =
          (if max 0 (range_from r) \<le> min m (range_to r)
           then ([] @ [colElement X (max 0 (range_from r) + 1) (min m (range_to r) + 1) w],
                 {} \<union> {max 0 (range_from r)..min m (range_to r)})
           else ([], {}))"
    by (intro processDef_range_width) simp_all
  have neg: "m < 0 \<Longrightarrow> \<not> max 0 (range_from r) \<le> min m (range_to r)"
    by linarith
  show "generateColsXml X m None (Some [d]) Map.empty =
          (if max 0 (range_from r) \<le> min m (range_to r)
           then colsBlock [colElement X (max 0 (range_from r) + 1) (min m (range_to r) + 1) w]
           else [])"
  proof (cases "max 0 (range_from r) \<le> min m (range_to r)")
    case True
    then have "\<not> m < 0" using neg by blast
    then show ?thesis
      using True by (simp only: generateColsXml_block generateColElements_single_no_fallback p) simp
  next
    case False
    then show ?thesis
      by (simp only: generateColsXml_block generateColElements_single_no_fallback p) simp
  qed
qed

theorem generateColsXml_clamping_witness:
  \<open>generateColsXml demo 3 None (Some [rangeDef (- 2) 7 (Some 5) False]) Map.empty =
     ''<cols>'' @ [CHR 0x0A] @ ''    <col min="1" max="4" width="5" customWidth="1"/>'' @ [CHR 0x0A] @ ''  </cols>''
   \<and> generateColsXml demo 3 None (Some [rangeDef 5 9 (Some 5) False]) Map.empty = []
   \<and> processDef demo 3 Map.empty (rangeDef 2 9 (Some 5) False) ([], {})
       = ([''    <col min="3" max="4" width="5" customWidth="1"/>''], {2, 3})
   \<and> processDef demo 3 Map.empty (indexDef 4 (Some 5) False) ([], {}) = ([], {})
   \<and> generateColsXml demo 3 None (Some [indexDef 4 (Some 5) False]) Map.empty
       = generateColsXml demo 3 None (Some []) Map.empty\<close>
proof -
  have h1: "def_columnIndex (rangeDef f t (Some 5) False) = None
            \<and> def_columnRange (rangeDef f t (Some 5) False) = Some \<lparr>range_from = f, range_to = t\<rparr>
            \<and> \<not> def_autoDetect (rangeDef f t (Some 5) False)
            \<and> def_width (rangeDef f t (Some 5) False) = Some 5" for f t
    by (simp add: rangeDef_def)
  have c: \<open>colElement demo 1 4 5 = ''    <col min="1" max="4" width="5" customWidth="1"/>''\<close>
    \<open>colElement demo 3 4 5 = ''    <col min="3" max="4" width="5" customWidth="1"/>''\<close>
    by code_simp+
  have e1: \<open>generateColsXml demo 3 None (Some [rangeDef (- 2) 7 (Some 5) False]) Map.empty =
     ''<cols>'' @ [CHR 0x0A] @ ''    <col min="1" max="4" width="5" customWidth="1"/>'' @ [CHR 0x0A] @ ''  </cols>''\<close>
    using generateColsXml_clamping [of "rangeDef (- 2) 7 (Some 5) False" _ 3 demo _ _ _ _ _
        "\<lparr>range_from = - 2, range_to = 7\<rparr>" 5] h1 [of "- 2" 7]
    by (simp add: c colsBlock_def)
  have e2: "generateColsXml demo 3 None (Some [rangeDef 5 9 (Some 5) False]) Map.empty = []"
    using generateColsXml_clamping [of "rangeDef 5 9 (Some 5) False" _ 3 demo _ _ _ _ _
        "\<lparr>range_from = 5, range_to = 9\<rparr>" 5] h1 [of 5 9]
    by simp
  have e3: \<open>processDef demo 3 Map.empty (rangeDef 2 9 (Some 5) False) ([], {})
       = ([''    <col min="3" max="4" width="5" customWidth="1"/>''], {2, 3})\<close>
    using generateColsXml_clamping [of "rangeDef 2 9 (Some 5) False" _ 3 demo Map.empty _ _ _ _
        "\<lparr>range_from = 2, range_to = 9\<rparr>" 5 "[]" "{}"] h1 [of 2 9]
    by (simp add: c) (auto simp: atLeastAtMost_def atLeast_def atMost_def)
  have h4: "def_columnIndex (indexDef 4 (Some 5) False) = Some 4 \<and> (3::int) < 4"
    by (simp add: indexDef_def)
  have e4: "processDef demo 3 Map.empty (indexDef 4 (Some 5) False) ([], {}) = ([], {})"
    using generateColsXml_clamping [of "indexDef 4 (Some 5) False" 4 3 demo Map.empty "([], {})"] h4
    by blast
  have e5: "generateColsXml demo 3 None (Some ([] @ indexDef 4 (Some 5) False # [])) Map.empty
       = generateColsXml demo 3 None (Some ([] @ [])) Map.empty"
    using generateColsXml_clamping [of "indexDef 4 (Some 5) False" 4 3 demo _ _ None "[]" "[]"] h4
    by blast
  show ?thesis
    using e1 e2 e3 e4 e5 by simp
qed

text \<open>
  The claim as first stated covers every range definition with an explicit width. When
  autoDetect is set as well, the range is handled column by column from the tracked widths
  and the explicit width is not used: with no tracked width nothing is declared.
\<close>

theorem generateColsXml_clamping_counterexample:
  \<open>generateColsXml demo 1 None (Some [rangeDef 0 1 (Some 5) True]) Map.empty = []
   \<and> generateColsXml demo 1 None (Some [rangeDef 0 1 (Some 5) True]) Map.empty
       \<noteq> colsBlock [colElement demo 1 2 5]\<close>
  by code_simp

end
